(* ===== verification/Prelude.thy ===== *)
theory Prelude
  imports Complex_Main "HOL-Library.Char_ord" "HOL-Library.List_Lexorder"
    "HOL-Library.Product_Lexorder" "HOL-Library.Multiset"
begin

text \<open>
  Shared vocabulary of the oscillator-classification model: the errors the
  pipeline can raise, results as sums, IEEE NaN as \<open>None\<close> of a \<open>real option\<close>,
  the pandas/numpy aggregations the code calls (mean, variance and standard
  deviation with their degrees of freedom, \<open>np.diff\<close>), the records of the input
  tables and of the summary row, and the generic lemmas the components share.
\<close>

named_theorems model_simps "evaluation equations of the model, for concrete runs"

section \<open>Errors and results\<close>

text \<open>
  Python exceptions that the modelled code can raise. \<open>InvalidWindowError\<close> is
  the smoother's configuration error; \<open>ZeroDivisionError\<close> a zero step size of
  the derivative estimator; \<open>FileNotFoundError\<close> and \<open>IsADirectoryError\<close> an \<open>open\<close> of a missing file or of a directory.
\<close>

datatype py_error = ZeroDivisionError | InvalidWindowError | FileNotFoundError | IsADirectoryError

type_synonym 'a result = "py_error + 'a"

definition bind_r :: "'a result \<Rightarrow> ('a \<Rightarrow> 'b result) \<Rightarrow> 'b result" where
  "bind_r r f = (case r of Inl e \<Rightarrow> Inl e | Inr a \<Rightarrow> f a)"

text \<open>A Python float that may be NaN: \<open>None\<close> is NaN.\<close>

type_synonym pyfloat = "real option"

text \<open>IEEE comparison \<open>x <= c\<close>: false whenever \<open>x\<close> is NaN.\<close>

fun nan_le :: "pyfloat \<Rightarrow> real \<Rightarrow> bool" where
  "nan_le None c = False"
| "nan_le (Some x) c = (x \<le> c)"

section \<open>pandas and numpy aggregations\<close>

definition list_mean :: "real list \<Rightarrow> real" where
  "list_mean xs = sum_list xs / real (length xs)"

definition sq_dev :: "real list \<Rightarrow> real" where
  "sq_dev xs = sum_list (map (\<lambda>x. (x - list_mean xs)\<^sup>2) xs)"

text \<open>
  \<open>Series.mean()\<close> and \<open>ndarray.mean()\<close>: NaN on an empty input.
  \<open>Series.var()\<close> has \<open>ddof = 1\<close>, \<open>ndarray.var()\<close> has \<open>ddof = 0\<close>; both are NaN
  when there are no more values than degrees of freedom removed.
\<close>

definition nan_mean :: "real list \<Rightarrow> pyfloat" where
  "nan_mean xs = (if xs = [] then None else Some (list_mean xs))"

definition var_ddof :: "nat \<Rightarrow> real list \<Rightarrow> pyfloat" where
  "var_ddof d xs =
     (if length xs \<le> d then None else Some (sq_dev xs / real (length xs - d)))"

definition std_ddof :: "nat \<Rightarrow> real list \<Rightarrow> pyfloat" where
  "std_ddof d xs = map_option sqrt (var_ddof d xs)"

text \<open>\<open>np.diff(a, 1)\<close>: successive differences, one fewer than the input.\<close>

definition np_diff :: "real list \<Rightarrow> real list" where
  "np_diff xs = map2 (\<lambda>a b. b - a) xs (tl xs)"

text \<open>\<open>Series.max()\<close>: NaN on an empty column.\<close>

definition col_max :: "'a::linorder list \<Rightarrow> 'a option" where
  "col_max xs = (if xs = [] then None else Some (foldr max (tl xs) (hd xs)))"

section \<open>Input and output tables\<close>

text \<open>One row of the per-cycle data file (the columns the code reads).\<close>

record cycle_row =
  cycle :: int
  sim_id :: int
  org :: string
  experiment_col :: int
  generation :: int
  bush_pw_mean :: real

text \<open>One row of the parameter file.\<close>

record param_row =
  krat_reproduction_freq_per_x_cycles :: int
  snake_reproduction_freq_per_x_cycles :: int

text \<open>The list returned by \<open>run_classifacation_algorithm\<close>, field by field.\<close>

record summary_row =
  s_exp_name :: string
  s_sim_id :: "int option"
  s_exp :: "int option"
  s_org :: "string option"
  count_str_flip :: nat
  mean_strategy_flip_time :: pyfloat
  std_strategy_flip_time :: pyfloat
  var_strategy_flip_time :: pyfloat
  mean_magnitude_of_strategy_flip :: pyfloat
  std_magnitude_of_strategy_flip :: pyfloat
  var_magnitude_of_strategy_flip :: pyfloat
  nash_val :: int

text \<open>
  The fields of an \<open>Experiment_Per_Cycle_Analysis\<close> object. The two frequencies
  are the maxima of the parameter columns (\<open>None\<close>: NaN, an empty parameter table);
  \<open>by_gen_filter_col\<close> is the column the constructor adds to \<open>per_cycle\<close>.
\<close>

record per_cycle_analysis =
  exp_name :: string
  per_cycle :: "cycle_row list"
  parameters :: "param_row list"
  output_file_csv :: string
  nash_inf_count_sensitivity :: int
  nash_inf_mag_sensitivity :: real
  krat_reproduction_freq :: "int option"
  snake_reproduction_freq :: "int option"
  by_gen_filter_col :: "int list"
  by_gen_data :: "cycle_row list"

section \<open>Shared lemmas\<close>

lemma bind_r_simps [simp, model_simps]:
  "bind_r (Inl e) f = Inl e"
  "bind_r (Inr a) f = f a"
  by (simp_all add: bind_r_def)

lemma bind_r_eq_Inr:
  "bind_r r f = Inr b \<longleftrightarrow> (\<exists>a. r = Inr a \<and> f a = Inr b)"
  by (cases r) auto

lemma bind_r_eq_Inl:
  "bind_r r f = Inl e \<longleftrightarrow> r = Inl e \<or> (\<exists>a. r = Inr a \<and> f a = Inl e)"
  by (cases r) auto

lemma list_mean_replicate [simp]:
  "0 < n \<Longrightarrow> list_mean (replicate n c) = c"
  by (simp add: list_mean_def sum_list_replicate)

lemma sq_dev_replicate [simp]:
  "sq_dev (replicate n c) = 0"
  by (cases "n = 0") (simp_all add: sq_dev_def sum_list_replicate)

lemma length_np_diff [simp]: "length (np_diff xs) = length xs - 1"
  by (simp add: np_diff_def)

lemma np_diff_simps [simp, model_simps]:
  "np_diff [] = []"
  "np_diff [x] = []"
  "np_diff (x # y # zs) = (y - x) # np_diff (y # zs)"
  by (simp_all add: np_diff_def)

lemma nan_mean_simps [simp]:
  "nan_mean [] = None"
  "xs \<noteq> [] \<Longrightarrow> nan_mean xs = Some (list_mean xs)"
  by (simp_all add: nan_mean_def)

lemma col_max_simps [simp, model_simps]:
  "col_max [] = None"
  "col_max (x # xs) = Some (foldr max xs x)"
  by (simp_all add: col_max_def)

lemma foldr_max_replicate [simp]: "foldr max (replicate n x) x = (x::'a::linorder)"
  by (induction n) simp_all

lemmas stats_defs [model_simps] = list_mean_def sq_dev_def nan_mean_def var_ddof_def std_ddof_def

lemma set_tl_subset: "set (tl xs) \<subseteq> set xs"
  by (cases xs) auto

lemma sum_list_pos: "xs \<noteq> [] \<Longrightarrow> \<forall>x\<in>set xs. 0 < (x::real) \<Longrightarrow> 0 < sum_list xs"
proof (induction xs)
  case Nil
  then show ?case by simp
next
  case (Cons a xs)
  then show ?case by (cases "xs = []") (simp_all add: add_pos_pos)
qed

lemma sum_list_neg: "xs \<noteq> [] \<Longrightarrow> \<forall>x\<in>set xs. (x::real) < 0 \<Longrightarrow> sum_list xs < 0"
proof (induction xs)
  case Nil
  then show ?case by simp
next
  case (Cons a xs)
  then show ?case by (cases "xs = []") (simp_all add: add_neg_neg)
qed

lemma sum_list_zero: "\<forall>x\<in>set xs. x = (0::real) \<Longrightarrow> sum_list xs = 0"
  by (induction xs) simp_all

lemma list_mean_sign:
  "xs \<noteq> [] \<Longrightarrow> \<forall>x\<in>set xs. 0 < x \<Longrightarrow> 0 < list_mean xs"
  "xs \<noteq> [] \<Longrightarrow> \<forall>x\<in>set xs. x < 0 \<Longrightarrow> list_mean xs < 0"
  "\<forall>x\<in>set xs. x = 0 \<Longrightarrow> list_mean xs = 0"
  by (simp_all add: list_mean_def sum_list_pos sum_list_neg divide_neg_pos sum_list_zero)


lemma nan_mean_replicate: "nan_mean (replicate n c) = (if n = 0 then None else Some c)"
  by simp

lemma var_ddof_replicate:
  "var_ddof d (replicate n c) = (if n \<le> d then None else Some 0)"
  by (simp add: var_ddof_def)

lemma std_ddof_replicate:
  "std_ddof d (replicate n c) = (if n \<le> d then None else Some 0)"
  by (simp add: std_ddof_def var_ddof_replicate)



lemma map_eq_nth:
  "map g xs = map h ys \<Longrightarrow> j < length ys \<Longrightarrow> g (xs ! j) = h (ys ! j)"
  by (metis length_map nth_map)

lemma np_diff_affine:
  "np_diff (map (\<lambda>v. a * v + c) xs) = map ((*) a) (np_diff xs)"
  by (induction xs rule: induct_list012) (simp_all add: algebra_simps)

end
