(* ===== verification/Derivative.thy ===== *)
theory Derivative
  imports Prelude
begin

text \<open>
  The derivative estimator \<open>ipc.aprox_derv_central\<close> (spec section 4.1; the
  module \<open>single_sim_analysis\<close> is not under \<open>src/\<close>, so it is modelled from the
  spec). At index \<open>i\<close> it takes the central difference with the forward and
  backward step sizes, and falls back to a one-sided difference of the same step
  where the needed neighbour is out of range. A zero step would divide by zero.
\<close>

definition derv_at :: "real list \<Rightarrow> nat \<Rightarrow> nat \<Rightarrow> nat \<Rightarrow> real" where
  "derv_at y f b i =
     (if b \<le> i \<and> i + f < length y then (y ! (i + f) - y ! (i - b)) / real (f + b)
      else if i + f < length y then (y ! (i + f) - y ! i) / real f
      else if b \<le> i then (y ! i - y ! (i - b)) / real b
      else 0)"

definition aprox_derv_central :: "real list \<Rightarrow> nat \<Rightarrow> nat \<Rightarrow> real list result" where
  "aprox_derv_central y f b =
     (if f = 0 \<or> b = 0 then Inl ZeroDivisionError
      else Inr (map (derv_at y f b) [0..<length y]))"

section \<open>Characteristic equations\<close>

lemma aprox_derv_central_ok:
  "0 < f \<Longrightarrow> 0 < b \<Longrightarrow> aprox_derv_central y f b = Inr (map (derv_at y f b) [0..<length y])"
  by (simp add: aprox_derv_central_def)

lemma aprox_derv_central_Inr_length:
  "aprox_derv_central y f b = Inr d \<Longrightarrow> length d = length y"
  by (auto simp: aprox_derv_central_def split: if_splits)

lemma aprox_derv_central_Inr_nth:
  "aprox_derv_central y f b = Inr d \<Longrightarrow> i < length y \<Longrightarrow> d ! i = derv_at y f b i"
  by (auto simp: aprox_derv_central_def split: if_splits)

lemma derv_at_central:
  "b \<le> i \<Longrightarrow> i + f < length y \<Longrightarrow> derv_at y f b i = (y ! (i + f) - y ! (i - b)) / real (f + b)"
  by (simp add: derv_at_def)

lemma derv_at_forward:
  "i < b \<Longrightarrow> i + f < length y \<Longrightarrow> derv_at y f b i = (y ! (i + f) - y ! i) / real f"
  by (simp add: derv_at_def)

lemma derv_at_backward:
  "b \<le> i \<Longrightarrow> length y \<le> i + f \<Longrightarrow> derv_at y f b i = (y ! i - y ! (i - b)) / real b"
  by (simp add: derv_at_def)

lemmas derv_at_cases = derv_at_central derv_at_forward derv_at_backward

section \<open>Exactness on polynomials\<close>

text \<open>
  Central differencing is exact on affine sequences, with any steps that leave every
  index a neighbour; applied twice with unit steps it gives the exact second
  derivative of \<open>i\<^sup>2\<close> at every index two or more away from both ends.
\<close>

lemma derv_at_affine:
  assumes "0 < f" "0 < b" "f + b \<le> n" "i < n"
  shows "derv_at (map (\<lambda>i. a + c * real i) [0..<n]) f b i = c"
proof -
  let ?y = "map (\<lambda>i. a + c * real i) [0..<n]"
  have y: "j < n \<Longrightarrow> ?y ! j = a + c * real j" for j by simp
  have len: "length ?y = n" by simp
  consider (central) "b \<le> i" "i + f < n" | (fwd) "i < b" "i + f < n" | (bwd) "b \<le> i" "n \<le> i + f"
    using assms by linarith
  then show ?thesis
  proof cases
    case central
    then have "?y ! (i + f) - ?y ! (i - b) = c * real (f + b)"
      using assms by (simp add: y of_nat_diff algebra_simps)
    then show ?thesis using central assms by (simp add: derv_at_central len)
  next
    case fwd
    then have "?y ! (i + f) - ?y ! i = c * real f"
      using assms by (simp add: y algebra_simps)
    then show ?thesis using fwd assms by (simp add: derv_at_forward len)
  next
    case bwd
    then have "?y ! i - ?y ! (i - b) = c * real b"
      using assms by (simp add: y of_nat_diff algebra_simps)
    then show ?thesis using bwd assms by (simp add: derv_at_backward len)
  qed
qed

lemma aprox_derv_central_affine:
  assumes "0 < f" "0 < b" "f + b \<le> n"
  shows "aprox_derv_central (map (\<lambda>i. a + c * real i) [0..<n]) f b = Inr (replicate n c)"
proof -
  have "map (derv_at (map (\<lambda>i. a + c * real i) [0..<n]) f b) [0..<n] = replicate n c"
    using assms by (simp add: list_eq_iff_nth_eq derv_at_affine)
  then show ?thesis using assms by (simp add: aprox_derv_central_ok)
qed

lemma aprox_derv_central_affine_witness:
  "aprox_derv_central (map (\<lambda>i. 1 + 2 * real i) [0..<3]) 1 1 = Inr (replicate 3 2)"
  using aprox_derv_central_affine [of 1 1 3 1 2] by simp

lemma derv_at_square_interior:
  assumes "0 < i" "Suc i < n"
  shows "derv_at (map (\<lambda>i. (real i)\<^sup>2) [0..<n]) 1 1 i = 2 * real i"
proof -
  have "(real (Suc i))\<^sup>2 - (real (i - 1))\<^sup>2 = 4 * real i"
    using assms by (simp add: power2_eq_square algebra_simps)
  moreover have "derv_at (map (\<lambda>i. (real i)\<^sup>2) [0..<n]) 1 1 i =
      ((real (Suc i))\<^sup>2 - (real (i - 1))\<^sup>2) / 2"
    using assms by (simp add: derv_at_def)
  ultimately show ?thesis by simp
qed

lemma aprox_derv_central_square_second:
  assumes d1: "aprox_derv_central (map (\<lambda>i. (real i)\<^sup>2) [0..<n]) 1 1 = Inr d1"
    and d2: "aprox_derv_central d1 1 1 = Inr d2"
    and i: "2 \<le> i" "i + 2 < n"
  shows "d2 ! i = 2"
proof -
  have len: "length d1 = n" using aprox_derv_central_Inr_length [OF d1] by simp
  have "d1 ! Suc i = 2 * real (Suc i)"
    using i aprox_derv_central_Inr_nth [OF d1, of "Suc i"] derv_at_square_interior [of "Suc i" n]
    by simp
  moreover have "d1 ! (i - 1) = 2 * real (i - 1)"
    using i aprox_derv_central_Inr_nth [OF d1, of "i - 1"] derv_at_square_interior [of "i - 1" n]
    by simp
  moreover have "d2 ! i = (d1 ! Suc i - d1 ! (i - 1)) / 2"
    using i len aprox_derv_central_Inr_nth [OF d2, of i] by (simp add: derv_at_def)
  ultimately show ?thesis using i by simp
qed

lemma square_derivative_5:
  "aprox_derv_central (map (\<lambda>i. (real i)\<^sup>2) [0..<5]) 1 1 = Inr [1, 2, 4, 6, 7]"
  by (simp add: aprox_derv_central_def upt_rec derv_at_def)

lemma square_second_derivative_5:
  "aprox_derv_central [1, 2, 4, 6, 7] 1 1 = Inr [1, 3 / 2, 2, 3 / 2, 1]"
  by (simp add: aprox_derv_central_def upt_rec derv_at_def)
lemma aprox_derv_central_square_second_witness:
  "aprox_derv_central (map (\<lambda>i. (real i)\<^sup>2) [0..<5]) 1 1 = Inr [1, 2, 4, 6, 7] \<and>
   aprox_derv_central [1, 2, 4, 6, 7] 1 1 = Inr [1, 3 / 2, 2, 3 / 2, 1] \<and>
   [1, 3 / 2, 2, 3 / 2, 1 :: real] ! 2 = 2"
  using aprox_derv_central_square_second [OF square_derivative_5 square_second_derivative_5, of 2]
    square_derivative_5 square_second_derivative_5
  by simp

section \<open>Sign of the derivative\<close>

lemma derv_at_unit_sign:
  assumes "2 \<le> length y" "i < length y"
  shows "sorted_wrt (<) y \<Longrightarrow> 0 < derv_at y 1 1 i"
    and "sorted_wrt (>) y \<Longrightarrow> derv_at y 1 1 i < 0"
proof -
  have lt: "sorted_wrt R y \<Longrightarrow> j < k \<Longrightarrow> k < length y \<Longrightarrow> R (y ! j) (y ! k)" for R j k
    by (simp add: sorted_wrt_nth_less)
  show "sorted_wrt (<) y \<Longrightarrow> 0 < derv_at y 1 1 i"
    using assms lt [of "(<)" "i - 1" "Suc i"] lt [of "(<)" i "Suc i"] lt [of "(<)" "i - 1" i]
    by (auto simp: derv_at_def)
  show "sorted_wrt (>) y \<Longrightarrow> derv_at y 1 1 i < 0"
    using assms lt [of "(>)" "i - 1" "Suc i"] lt [of "(>)" i "Suc i"] lt [of "(>)" "i - 1" i]
    by (auto simp: derv_at_def)
qed

lemma derv_at_unit_const: "i < n \<Longrightarrow> derv_at (replicate n c) (Suc 0) (Suc 0) i = 0"
  by (simp add: derv_at_def)

section \<open>Affine maps of the series\<close>

text \<open>The estimate commutes with scaling and ignores a constant offset.\<close>

lemma affine_diff_quotient:
  "(a * x + c - (a * y + c)) / k = a * ((x - y) / (k::real))"
  by (simp add: right_diff_distrib)

lemma derv_at_map_affine:
  "i < length y \<Longrightarrow> derv_at (map (\<lambda>v. a * v + c) y) f b i = a * derv_at y f b i"
  unfolding derv_at_def length_map
  by (simp only: if_distrib [of "(*) a"] nth_map affine_diff_quotient diff_le_self
        less_imp_diff_less mult_zero_right cong: if_cong)

lemma derv_at_map_scale:
  "i < length y \<Longrightarrow> derv_at (map ((*) a) y) f b i = a * derv_at y f b i"
  using derv_at_map_affine [of i y a 0 f b] by simp

lemma map_derv_at_affine:
  "map (derv_at (map (\<lambda>v. a * v + c) y) f b) [0..<length y] = map ((*) a) (map (derv_at y f b) [0..<length y])"
  by (simp add: derv_at_map_affine)

lemma map_derv_at_scale:
  "map (derv_at (map ((*) a) y) f b) [0..<length y] = map ((*) a) (map (derv_at y f b) [0..<length y])"
  by (simp add: derv_at_map_scale)

section \<open>Quadratic series\<close>

text \<open>Central differences are exact on quadratics in the interior, and twice applied they give the constant second derivative.\<close>

lemma derv_at_quadratic_interior:
  assumes "0 < i" "Suc i < n"
  shows "derv_at (map (\<lambda>i. a * (real i)\<^sup>2 + b * real i + c) [0..<n]) 1 1 i = 2 * a * real i + b"
proof -
  have "a * (real (Suc i))\<^sup>2 + b * real (Suc i) + c - (a * (real (i - 1))\<^sup>2 + b * real (i - 1) + c)
      = 2 * (2 * a * real i + b)"
    using assms by (simp add: of_nat_diff power2_eq_square algebra_simps)
  moreover have "derv_at (map (\<lambda>i. a * (real i)\<^sup>2 + b * real i + c) [0..<n]) 1 1 i =
      (a * (real (Suc i))\<^sup>2 + b * real (Suc i) + c - (a * (real (i - 1))\<^sup>2 + b * real (i - 1) + c)) / 2"
    using assms by (simp add: derv_at_def)
  ultimately show ?thesis by simp
qed

lemma derv_at_quadratic_second:
  assumes "2 \<le> i" "i + 2 < n"
  shows "derv_at (map (derv_at (map (\<lambda>i. a * (real i)\<^sup>2 + b * real i + c) [0..<n]) 1 1) [0..<n]) 1 1 i
    = 2 * a"
proof -
  let ?d = "derv_at (map (\<lambda>i. a * (real i)\<^sup>2 + b * real i + c) [0..<n]) 1 1"
  have "?d (Suc i) = 2 * a * real (Suc i) + b" "?d (i - 1) = 2 * a * real (i - 1) + b"
    using derv_at_quadratic_interior [of "Suc i" n a b c] derv_at_quadratic_interior [of "i - 1" n a b c]
      assms by simp_all
  moreover have "derv_at (map ?d [0..<n]) 1 1 i = (?d (Suc i) - ?d (i - 1)) / 2"
    using assms by (simp add: derv_at_def)
  ultimately show ?thesis using assms by (simp add: of_nat_diff algebra_simps)
qed

end
