(* ===== verification/Smoother.thy ===== *)
theory Smoother
  imports Prelude
begin

text \<open>
  The smoother \<open>ipc.savitzky_golay(y_list, window_size, order, deriv, rate)\<close>
  (spec section 4.2; modelled from the spec, \<open>single_sim_analysis\<close> is not under
  \<open>src/\<close>). Over a window of \<open>w = 2h+1\<close> points it fits a polynomial of the
  given order by least squares and evaluates it, or its \<open>deriv\<close>-th derivative
  scaled by \<open>rate ^ deriv\<close>, at the centre. The fit is computed exactly: the
  monomials are orthogonalised over the abscissae \<open>-h..h\<close> (Gram--Schmidt on
  coefficient lists), the data are projected on that basis, and the weights
  \<open>sg_coeffs\<close> are the fit of each unit vector, as \<open>pinv(b)[deriv]\<close> is in the
  usual implementation. The series is padded at both ends by mirror reflection
  about its first and last value, so that the output has the input's length.
  A window that is even, not larger than the order, or longer than the input
  raises \<open>InvalidWindowError\<close>.
\<close>

section \<open>Least-squares polynomial fit over a symmetric window\<close>

text \<open>Polynomials as coefficient lists, lowest degree first.\<close>

fun peval :: "real list \<Rightarrow> real \<Rightarrow> real" where
  "peval [] t = 0"
| "peval (c # cs) t = c + t * peval cs t"

fun padd :: "real list \<Rightarrow> real list \<Rightarrow> real list" where
  "padd [] qs = qs"
| "padd ps [] = ps"
| "padd (p # ps) (q # qs) = (p + q) # padd ps qs"

definition psmult :: "real \<Rightarrow> real list \<Rightarrow> real list" where
  "psmult c ps = map ((*) c) ps"

definition monomial :: "nat \<Rightarrow> real list" where
  "monomial j = replicate j 0 @ [1]"

text \<open>The abscissae \<open>-h, \<dots>, h\<close> of a window of \<open>2h+1\<close> points.\<close>

definition sg_points :: "nat \<Rightarrow> real list" where
  "sg_points h = map real_of_int [- int h..int h]"

definition pinner :: "nat \<Rightarrow> real list \<Rightarrow> real list \<Rightarrow> real" where
  "pinner h ps qs = sum_list (map (\<lambda>t. peval ps t * peval qs t) (sg_points h))"

definition dinner :: "nat \<Rightarrow> real list \<Rightarrow> real list \<Rightarrow> real" where
  "dinner h ys qs = sum_list (map2 (\<lambda>v t. v * peval qs t) ys (sg_points h))"

fun sg_basis :: "nat \<Rightarrow> nat \<Rightarrow> real list list" where
  "sg_basis h 0 = [[1]]"
| "sg_basis h (Suc p) =
     (let qs = sg_basis h p; m = monomial (Suc p)
      in qs @ [foldl (\<lambda>r q. padd r (psmult (- (pinner h m q / pinner h q q)) q)) m qs])"

definition sg_fit :: "nat \<Rightarrow> nat \<Rightarrow> real list \<Rightarrow> real list" where
  "sg_fit h p ys =
     foldl (\<lambda>r q. padd r (psmult (dinner h ys q / pinner h q q) q)) [] (sg_basis h p)"

definition sg_eval :: "nat \<Rightarrow> nat \<Rightarrow> nat \<Rightarrow> real \<Rightarrow> real list \<Rightarrow> real" where
  "sg_eval h p d rate ys =
     (let cs = sg_fit h p ys in (if d < length cs then cs ! d else 0) * fact d * rate ^ d)"

definition unit_vec :: "nat \<Rightarrow> nat \<Rightarrow> real list" where
  "unit_vec w k = map (\<lambda>j. if j = k then 1 else 0) [0..<w]"

definition sg_coeffs :: "nat \<Rightarrow> nat \<Rightarrow> nat \<Rightarrow> real \<Rightarrow> real list" where
  "sg_coeffs w p d rate = map (\<lambda>k. sg_eval (w div 2) p d rate (unit_vec w k)) [0..<w]"

definition mirror_pad :: "nat \<Rightarrow> real list \<Rightarrow> real list" where
  "mirror_pad h ys = rev (take h (tl ys)) @ ys @ take h (tl (rev ys))"

definition savitzky_golay :: "real list \<Rightarrow> nat \<Rightarrow> nat \<Rightarrow> nat \<Rightarrow> real \<Rightarrow> real list result" where
  "savitzky_golay ys w p d rate =
     (if even w \<or> w \<le> p \<or> length ys < w then Inl InvalidWindowError
      else let cs = sg_coeffs w p d rate; zs = mirror_pad (w div 2) ys
           in Inr (map (\<lambda>i. sum_list (map2 (*) cs (take w (drop i zs)))) [0..<length ys]))"

section \<open>Properties\<close>

lemma length_sg_points [simp]: "length (sg_points h) = 2 * h + 1"
  by (simp add: sg_points_def)

lemma upto_symm_Suc:
  "[- int (Suc h)..int (Suc h)] = (- int (Suc h)) # [- int h..int h] @ [int (Suc h)]"
proof -
  have "[- int (Suc h)..int (Suc h)] = (- int (Suc h)) # [- int h..int (Suc h)]"
    by (subst upto_rec1) (simp_all add: algebra_simps)
  also have "[- int h..int (Suc h)] = [- int h..int h] @ [int (Suc h)]"
    by (subst upto_rec2) simp_all
  finally show ?thesis .
qed

lemma sum_sg_points [simp]: "sum_list (sg_points h) = 0"
proof (induction h)
  case 0
  then show ?case by (simp add: sg_points_def)
next
  case (Suc h)
  have "sg_points (Suc h) = (- real (Suc h)) # sg_points h @ [real (Suc h)]"
    by (simp only: sg_points_def upto_symm_Suc) simp
  with Suc show ?case by simp
qed

lemma peval_const [simp]: "peval [c] t = c"
  by simp

lemma pinner_one_one: "pinner h [1] [1] = real (2 * h + 1)"
  by (simp add: pinner_def sum_list_triv)

lemma pinner_x_one: "pinner h [0, 1] [1] = 0"
  by (simp add: pinner_def)

lemma sg_basis_0 [simp]: "sg_basis h 0 = [[1]]"
  by simp

lemma sg_basis_1: "sg_basis h (Suc 0) = [[1], [0, 1]]"
proof -
  have "monomial (Suc 0) = [0, 1]" by (simp add: monomial_def)
  then show ?thesis by (simp add: pinner_x_one psmult_def)
qed

lemma dinner_one: "length ys = 2 * h + 1 \<Longrightarrow> dinner h ys [1] = sum_list ys"
proof -
  assume len: "length ys = 2 * h + 1"
  have "map2 (\<lambda>v t. v * peval [1] t) ys (sg_points h) = ys"
    using len by (simp add: list_eq_iff_nth_eq)
  then show ?thesis by (simp add: dinner_def)
qed

lemma sg_fit_low_order_head:
  "p \<le> 1 \<Longrightarrow> length ys = 2 * h + 1 \<Longrightarrow>
   sg_fit h p ys ! 0 = sum_list ys / real (2 * h + 1) \<and> 0 < length (sg_fit h p ys)"
proof -
  assume p: "p \<le> 1" and len: "length ys = 2 * h + 1"
  consider "p = 0" | "p = 1" using p by linarith
  then show ?thesis
  proof cases
    case 1
    then show ?thesis using len by (simp add: sg_fit_def dinner_one pinner_one_one psmult_def)
  next
    case 2
    then show ?thesis using len by (simp del: sg_basis.simps add: sg_fit_def sg_basis_1 dinner_one pinner_one_one psmult_def)
  qed
qed

lemma sum_list_unit_vec: "k < w \<Longrightarrow> sum_list (unit_vec w k) = 1"
  by (simp add: unit_vec_def sum_list_map_filter' sum_list_sum_nth) 


lemma length_unit_vec [simp]: "length (unit_vec w k) = w"
  by (simp add: unit_vec_def)

lemma odd_window: "odd (w::nat) \<Longrightarrow> 2 * (w div 2) + 1 = w"
  by presburger

lemma sg_eval_low_order:
  "p \<le> 1 \<Longrightarrow> length ys = 2 * h + 1 \<Longrightarrow> sg_eval h p 0 rate ys = sum_list ys / real (2 * h + 1)"
  using sg_fit_low_order_head [of p ys h] by (simp add: sg_eval_def Let_def)

lemma sg_coeffs_low_order:
  assumes "odd w" "p \<le> 1"
  shows "sg_coeffs w p 0 rate = replicate w (1 / real w)"
proof -
  have "sg_eval (w div 2) p 0 rate (unit_vec w k) = 1 / real w" if "k < w" for k
    using that assms odd_window [OF assms(1)] sg_eval_low_order [of p "unit_vec w k" "w div 2" rate]
    by (simp add: sum_list_unit_vec)
  then show ?thesis by (simp add: sg_coeffs_def list_eq_iff_nth_eq)
qed

lemma length_mirror_pad:
  "h < length ys \<Longrightarrow> length (mirror_pad h ys) = length ys + 2 * h"
  by (simp add: mirror_pad_def)

lemma sum_list_map2_replicate:
  "sum_list (map2 (*) (replicate (length zs) (c::real)) zs) = c * sum_list zs"
  by (induction zs) (simp_all add: distrib_left)

lemma sum_list_window_uniform:
  "length zs = w \<Longrightarrow> sum_list (map2 (*) (replicate w (1 / real w)) zs) = list_mean zs"
  using sum_list_map2_replicate [of zs "1 / real w"] by (simp add: list_mean_def)


lemma savitzky_golay_Inr_length:
  "savitzky_golay ys w p d rate = Inr zs \<Longrightarrow> length zs = length ys"
  by (auto simp: savitzky_golay_def Let_def split: if_splits)

lemma window_length:
  assumes "odd w" "w \<le> length ys" "i < length ys"
  shows "length (take w (drop i (mirror_pad (w div 2) ys))) = w"
proof -
  have "w div 2 < length ys" using assms by linarith
  then have "length (mirror_pad (w div 2) ys) = length ys + 2 * (w div 2)"
    by (rule length_mirror_pad)
  then show ?thesis using assms odd_window [OF assms(1)] by simp
qed

lemma savitzky_golay_moving_average:
  assumes "odd w" "p \<le> 1" "p < w" "w \<le> length ys"
  shows "savitzky_golay ys w p 0 rate =
    Inr (map (\<lambda>i. list_mean (take w (drop i (mirror_pad (w div 2) ys)))) [0..<length ys])"
proof -
  have "sum_list (map2 (*) (replicate w (1 / real w)) (take w (drop i (mirror_pad (w div 2) ys))))
      = list_mean (take w (drop i (mirror_pad (w div 2) ys)))" if "i < length ys" for i
    using that assms window_length sum_list_window_uniform by blast
  then show ?thesis
    using assms by (simp add: savitzky_golay_def sg_coeffs_low_order Let_def)
qed

lemma mirror_pad_replicate:
  "h < n \<Longrightarrow> mirror_pad h (replicate n c) = replicate (n + 2 * h) c"
  by (simp add: mirror_pad_def replicate_add [symmetric] tl_replicate min_def)

lemma savitzky_golay_constant:
  assumes "odd w" "p \<le> 1" "p < w" "w \<le> n"
  shows "savitzky_golay (replicate n c) w p 0 rate = Inr (replicate n c)"
proof -
  have h: "w div 2 < n" using assms by linarith
  have "list_mean (take w (drop i (mirror_pad (w div 2) (replicate n c)))) = c" if "i < n" for i
  proof -
    have "take w (drop i (mirror_pad (w div 2) (replicate n c))) = replicate w c"
      using that h odd_window [OF assms(1)] by (simp add: mirror_pad_replicate min_def)
    then show ?thesis using assms by simp
  qed
  then show ?thesis
    using assms by (simp add: savitzky_golay_moving_average list_eq_iff_nth_eq)
qed


section \<open>Concrete weights and runs\<close>

lemma sg_coeffs_3_1 [model_simps]:
  "sg_coeffs 3 1 0 rate = [1 / 3, 1 / 3, 1 / 3]"
  "sg_coeffs 3 (Suc 0) 0 rate = [1 / 3, 1 / 3, 1 / 3]"
  using sg_coeffs_low_order [of 3 1 rate] by (simp_all add: numeral_3_eq_3)

lemma savitzky_golay_constant_witness:
  "savitzky_golay (replicate 4 5) 3 1 0 1 = Inr (replicate 4 5)"
  using savitzky_golay_constant [of 3 1 4 5 1] by simp

lemma savitzky_golay_moving_average_witness:
  "savitzky_golay [1, 1, 0, -1, 0, 1, 0, -1, -1] 3 1 0 1 =
     Inr [1, 2 / 3, 0, -1 / 3, 0, 1 / 3, 0, -2 / 3, -1]"
  using savitzky_golay_moving_average [of 3 1 "[1, 1, 0, -1, 0, 1, 0, -1, -1]" 1]
  by (simp add: mirror_pad_def list_mean_def upt_rec)

section \<open>The configuration of the pipeline: window 3, order 1\<close>

lemma savitzky_golay_3_1:
  "savitzky_golay ys 3 (Suc 0) 0 1 =
     (if length ys < 3 then Inl InvalidWindowError
      else Inr (map (\<lambda>i. sum_list (map2 (*) [1 / 3, 1 / 3, 1 / 3] (take 3 (drop i (mirror_pad 1 ys)))))
                 [0..<length ys]))"
  by (simp add: savitzky_golay_def sg_coeffs_3_1)

lemma set_mirror_pad: "set (mirror_pad h ys) \<subseteq> set ys"
proof -
  have "set (take h (tl ys)) \<subseteq> set ys" "set (take h (tl (rev ys))) \<subseteq> set ys"
    by (meson order_trans set_take_subset set_tl_subset, metis order_trans set_rev set_take_subset set_tl_subset)
  then show ?thesis by (auto simp: mirror_pad_def)
qed

lemma savitzky_golay_3_1_closed:
  assumes sg: "savitzky_golay zs 3 (Suc 0) 0 1 = Inr s"
    and P: "\<forall>x\<in>set zs. P x"
    and closed: "\<And>xs. xs \<noteq> [] \<Longrightarrow> \<forall>x\<in>set xs. P x \<Longrightarrow> P (list_mean xs)"
  shows "\<forall>x\<in>set s. P x"
proof -
  have len: "3 \<le> length zs" using sg by (simp add: savitzky_golay_3_1 split: if_splits)
  then have s: "s = map (\<lambda>i. list_mean (take 3 (drop i (mirror_pad 1 zs)))) [0..<length zs]"
    using sg savitzky_golay_moving_average [of 3 "Suc 0" zs 1] by simp
  have "P (list_mean (take 3 (drop i (mirror_pad 1 zs))))" if "i < length zs" for i
  proof (rule closed)
    have "length (take 3 (drop i (mirror_pad (3 div 2) zs))) = 3"
      using window_length [of 3 zs i] len that by simp
    then show "take 3 (drop i (mirror_pad 1 zs)) \<noteq> []" by auto
    show "\<forall>x\<in>set (take 3 (drop i (mirror_pad 1 zs))). P x"
      using P set_mirror_pad [of 1 zs] by (auto dest!: in_set_takeD in_set_dropD)
  qed
  then show ?thesis by (auto simp: s)
qed

section \<open>Linearity\<close>

text \<open>The smoother is linear: scaling the input scales the output.\<close>

lemma mirror_pad_map: "mirror_pad h (map g ys) = map g (mirror_pad h ys)"
  by (simp add: mirror_pad_def map_tl [symmetric] rev_map take_map)

lemma sum_list_map2_scale:
  "sum_list (map2 (*) cs (map ((*) a) zs)) = a * sum_list (map2 (*) cs (zs::real list))"
proof (induction cs arbitrary: zs)
  case Nil
  then show ?case by simp
next
  case (Cons x cs)
  then show ?case by (cases zs) (simp_all add: algebra_simps)
qed

lemma savitzky_golay_scale:
  "savitzky_golay (map ((*) a) ys) w p d rate = map_sum id (map ((*) a)) (savitzky_golay ys w p d rate)"
  by (simp add: savitzky_golay_def Let_def mirror_pad_map take_map drop_map sum_list_map2_scale)

lemma savitzky_golay_3_1_interior:
  assumes s: "savitzky_golay ys 3 1 0 1 = Inr zs" and i: "0 < i" "Suc i < length ys"
  shows "zs ! i = (ys ! (i - 1) + ys ! i + ys ! Suc i) / 3"
proof -
  have l: "3 \<le> length ys" using s by (simp add: savitzky_golay_3_1 split: if_splits)
  have pad: "mirror_pad (Suc 0) ys = ys ! 1 # ys @ take 1 (tl (rev ys))"
  proof -
    obtain y0 y1 rest where "ys = y0 # y1 # rest"
      using l by (cases ys; cases "tl ys") auto
    then show ?thesis by (simp add: mirror_pad_def)
  qed
  have "drop (i - 1) ys = ys ! (i - 1) # ys ! i # ys ! Suc i # drop (Suc (Suc i)) ys"
  proof -
    have "drop (i - 1) ys = ys ! (i - 1) # drop i ys"
      using i Cons_nth_drop_Suc [of "i - 1" ys] by simp
    also have "drop i ys = ys ! i # drop (Suc i) ys"
      using i Cons_nth_drop_Suc [of i ys] by simp
    also have "drop (Suc i) ys = ys ! Suc i # drop (Suc (Suc i)) ys"
      using i Cons_nth_drop_Suc [of "Suc i" ys] by simp
    finally show ?thesis .
  qed
  moreover have "drop i (mirror_pad (Suc 0) ys) = drop (i - 1) ys @ take 1 (tl (rev ys))"
    using i by (simp add: pad drop_Cons')
  ultimately have "take 3 (drop i (mirror_pad 1 ys)) = [ys ! (i - 1), ys ! i, ys ! Suc i]"
    by (simp add: numeral_3_eq_3)
  moreover have "zs ! i = sum_list (map2 (*) [1 / 3, 1 / 3, 1 / 3] (take 3 (drop i (mirror_pad 1 ys))))"
    using s i by (auto simp: savitzky_golay_3_1 split: if_splits)
  ultimately show ?thesis by simp
qed

lemma savitzky_golay_3_1_affine_at:
  assumes s: "savitzky_golay ys 3 1 0 1 = Inr zs" and i: "0 < i" "Suc i < length ys"
    and aff: "\<And>j. i - 1 \<le> j \<Longrightarrow> j \<le> Suc i \<Longrightarrow> ys ! j = \<alpha> * real j + \<beta>"
  shows "zs ! i = \<alpha> * real i + \<beta>"
proof -
  have "ys ! (i - 1) = \<alpha> * real (i - 1) + \<beta>" "ys ! i = \<alpha> * real i + \<beta>"
    "ys ! Suc i = \<alpha> * real (Suc i) + \<beta>"
    by (rule aff; simp)+
  then show ?thesis
    using savitzky_golay_3_1_interior [OF s i] i by (simp add: of_nat_diff algebra_simps)
qed

end
