(* ===== verification/Classifier.thy ===== *)
theory Classifier
  imports Prelude
begin

text \<open>
  The critical-point classifier \<open>ipc.inflection_point_classifaction(df, sensitivity)\<close>
  and \<open>ipc.plotable_points(df)\<close> (spec section 4.3; modelled from the spec). The data
  frame built in \<open>run_classifacation_algorithm\<close> has the columns \<open>x\<close> (generation),
  \<open>y\<close> (observation), \<open>yx_dx\<close> and \<open>yx_dx2\<close> (smoothed first and second derivative);
  it is a list of \<open>frame_row\<close>s. An interior index is a maximum when the first
  derivative turns from positive to non-positive and the second derivative is
  below \<open>-sensitivity\<close>, a minimum in the mirrored case; the first and last index
  are never classified.
\<close>

datatype point_class = PMin | PMax | PNone

record frame_row =
  col_x :: int
  col_y :: real
  col_yx_dx :: real
  col_yx_dx2 :: real

definition classify_at :: "frame_row list \<Rightarrow> real \<Rightarrow> nat \<Rightarrow> point_class" where
  "classify_at df s i =
     (if i = 0 \<or> length df \<le> Suc i then PNone
      else if 0 < col_yx_dx (df ! (i - 1)) \<and> col_yx_dx (df ! i) \<le> 0
              \<and> col_yx_dx2 (df ! i) < - s then PMax
      else if col_yx_dx (df ! (i - 1)) < 0 \<and> 0 \<le> col_yx_dx (df ! i)
              \<and> s < col_yx_dx2 (df ! i) then PMin
      else PNone)"

definition inflection_point_classifaction :: "frame_row list \<Rightarrow> real \<Rightarrow> point_class list" where
  "inflection_point_classifaction df s = map (classify_at df s) [0..<length df]"

text \<open>The \<open>dot_class\<close> column: whether the point is a minimum or a maximum.\<close>

definition plotable_points :: "point_class list \<Rightarrow> bool list" where
  "plotable_points cls = map (\<lambda>c. c \<noteq> PNone) cls"

text \<open>Swapping the two extremum labels (the labels of the negated series).\<close>

fun mirror_class :: "point_class \<Rightarrow> point_class" where
  "mirror_class PMin = PMax"
| "mirror_class PMax = PMin"
| "mirror_class PNone = PNone"

section \<open>Properties\<close>

lemma length_inflection_point_classifaction [simp]:
  "length (inflection_point_classifaction df s) = length df"
  by (simp add: inflection_point_classifaction_def)

lemma nth_inflection_point_classifaction [simp]:
  "i < length df \<Longrightarrow> inflection_point_classifaction df s ! i = classify_at df s i"
  by (simp add: inflection_point_classifaction_def)

lemma classify_at_PMax:
  "classify_at df s i = PMax \<longleftrightarrow>
     0 < i \<and> Suc i < length df \<and> 0 < col_yx_dx (df ! (i - 1)) \<and> col_yx_dx (df ! i) \<le> 0
     \<and> col_yx_dx2 (df ! i) < - s"
  by (auto simp: classify_at_def)

lemma classify_at_PMin:
  "classify_at df s i = PMin \<longleftrightarrow>
     0 < i \<and> Suc i < length df \<and> col_yx_dx (df ! (i - 1)) < 0 \<and> 0 \<le> col_yx_dx (df ! i)
     \<and> s < col_yx_dx2 (df ! i)"
  by (auto simp: classify_at_def)

lemma classify_at_interior:
  "classify_at df s i \<noteq> PNone \<Longrightarrow> 0 < i \<and> Suc i < length df"
  by (auto simp: classify_at_def split: if_splits)

lemma classify_at_curvature:
  "classify_at df s i \<noteq> PNone \<Longrightarrow> s < \<bar>col_yx_dx2 (df ! i)\<bar>"
  by (auto simp: classify_at_def split: if_splits)

lemma classify_at_not_adjacent:
  "classify_at df s i \<noteq> PNone \<Longrightarrow> classify_at df s (Suc i) \<noteq> classify_at df s i"
proof
  assume ne: "classify_at df s i \<noteq> PNone"
    and eq: "classify_at df s (Suc i) = classify_at df s i"
  show False
  proof (cases "classify_at df s i")
    case PMin
    with eq have "classify_at df s (Suc i) = PMin" by simp
    with PMin show False by (simp add: classify_at_PMin)
  next
    case PMax
    with eq have "classify_at df s (Suc i) = PMax" by simp
    with PMax show False by (simp add: classify_at_PMax)
  next
    case PNone
    with ne show False by simp
  qed
qed

section \<open>Reflected and unchanged slopes\<close>

text \<open>
  The labels depend only on the two derivative columns: the same columns give the same
  labels, negated columns swap minima and maxima.
\<close>

lemma mirror_class_eq_iff [simp]: "mirror_class x = mirror_class y \<longleftrightarrow> x = y"
  by (cases x; cases y) simp_all

lemma mirror_class_PNone_iff [simp]: "mirror_class x = PNone \<longleftrightarrow> x = PNone"
  by (cases x) simp_all

lemma classify_at_scaled:
  assumes a: "a = 1 \<or> a = -1" and l: "length df' = length df"
    and d1: "map col_yx_dx df' = map ((*) a) (map col_yx_dx df)"
    and d2: "map col_yx_dx2 df' = map ((*) a) (map col_yx_dx2 df)"
    and i: "i < length df"
  shows "classify_at df' s i = (if a = 1 then classify_at df s i else mirror_class (classify_at df s i))"
proof -
  have e1: "col_yx_dx (df' ! j) = a * col_yx_dx (df ! j)" if "j < length df" for j
    using map_eq_nth [OF d1] that by simp
  have e2: "col_yx_dx2 (df' ! j) = a * col_yx_dx2 (df ! j)" if "j < length df" for j
    using map_eq_nth [OF d2] that by simp
  have "i - 1 < length df" using i by simp
  then show ?thesis using a i e1 e2 [OF i] e1 [of "i - 1"] l
    by (auto simp: classify_at_def)
qed

lemma inflection_point_classifaction_scaled:
  assumes "a = 1 \<or> a = -1" "length df' = length df"
    "map col_yx_dx df' = map ((*) a) (map col_yx_dx df)"
    "map col_yx_dx2 df' = map ((*) a) (map col_yx_dx2 df)"
  shows "inflection_point_classifaction df' s =
    (if a = 1 then inflection_point_classifaction df s
     else map mirror_class (inflection_point_classifaction df s))"
  using classify_at_scaled [OF assms] assms(2)
  by (simp add: list_eq_iff_nth_eq)

lemma inflection_point_classifaction_same_slopes:
  assumes "length df' = length df" "map col_yx_dx df' = map col_yx_dx df"
    "map col_yx_dx2 df' = map col_yx_dx2 df"
  shows "inflection_point_classifaction df' s = inflection_point_classifaction df s"
  using inflection_point_classifaction_scaled [of 1 df' df s] assms by simp

end
