(* ===== verification/Regime.thy ===== *)
theory Regime
  imports Classifier
begin

text \<open>
  The regime tracker (spec section 4.4, modelled from the spec): the three data
  frame columns that \<open>run_classifacation_algorithm\<close> computes with
  \<open>ipc.min_max_flip_by_gen\<close> (\<open>min_max_flip\<close>), \<open>ipc.time_as_min_max\<close>
  (\<open>time_as_max_min\<close>) and \<open>ipc.min_max_filter\<close> (\<open>min_max_filter\<close>), each a scan
  over the rows in index order. Section 9 of the spec describes the same
  computation as one fold over an explicit state machine with the states
  \<open>Unset\<close>, \<open>LastWasMin\<close>, \<open>LastWasMax\<close>; it is \<open>regime_step\<close>, and the two
  descriptions are proved equal. The abstract specification of a flip, the first
  extremum of a new type, is \<open>flip_spec\<close>.
\<close>

section \<open>The three columns\<close>

text \<open>A flip is an extremum whose type differs from the last recorded type.\<close>

fun flip_scan :: "point_class option \<Rightarrow> point_class list \<Rightarrow> bool list" where
  "flip_scan lst [] = []"
| "flip_scan lst (c # cs) =
     (if c \<noteq> PNone \<and> lst \<noteq> Some c then True # flip_scan (Some c) cs
      else False # flip_scan lst cs)"

definition min_max_flip_by_gen :: "point_class list \<Rightarrow> bool list" where
  "min_max_flip_by_gen cls = flip_scan None cls"

text \<open>Regime duration: reset to 1 at a flip, incremented at every other row.\<close>

fun duration_scan :: "nat \<Rightarrow> bool list \<Rightarrow> nat list" where
  "duration_scan k [] = []"
| "duration_scan k (f # fs) =
     (if f then 1 # duration_scan 1 fs else Suc k # duration_scan (Suc k) fs)"

definition time_as_min_max :: "bool list \<Rightarrow> nat list" where
  "time_as_min_max fs = duration_scan 0 fs"

text \<open>Counted flips: every flip but the first.\<close>

fun filter_scan :: "bool \<Rightarrow> bool list \<Rightarrow> bool list" where
  "filter_scan seen [] = []"
| "filter_scan seen (f # fs) = (f \<and> seen) # filter_scan (seen \<or> f) fs"

definition min_max_filter :: "bool list \<Rightarrow> bool list" where
  "min_max_filter fs = filter_scan False fs"

section \<open>The state machine of spec section 9\<close>

datatype ext_state = Unset | LastWasMin | LastWasMax

fun ext_of :: "point_class \<Rightarrow> ext_state" where
  "ext_of PMin = LastWasMin"
| "ext_of PMax = LastWasMax"
| "ext_of PNone = Unset"

record regime_state =
  last_ext :: ext_state
  regime_duration :: nat

definition regime_init :: regime_state where
  "regime_init = \<lparr>last_ext = Unset, regime_duration = 0\<rparr>"

text \<open>One row: the new state and the row's \<open>(flip, regime_duration, counted)\<close>.\<close>

definition regime_step :: "regime_state \<Rightarrow> point_class \<Rightarrow> regime_state \<times> bool \<times> nat \<times> bool" where
  "regime_step st c =
     (if c \<noteq> PNone \<and> ext_of c \<noteq> last_ext st
      then (\<lparr>last_ext = ext_of c, regime_duration = 1\<rparr>, True, 1, last_ext st \<noteq> Unset)
      else (st\<lparr>regime_duration := Suc (regime_duration st)\<rparr>,
            False, Suc (regime_duration st), False))"

fun regime_scan :: "regime_state \<Rightarrow> point_class list \<Rightarrow> (bool \<times> nat \<times> bool) list" where
  "regime_scan st [] = []"
| "regime_scan st (c # cs) = snd (regime_step st c) # regime_scan (fst (regime_step st c)) cs"

text \<open>The state in which the scan resumes after a recorded label.\<close>

fun ext_opt :: "point_class option \<Rightarrow> ext_state" where
  "ext_opt None = Unset"
| "ext_opt (Some c) = ext_of c"


text \<open>A recorded label as a list of at most one element.\<close>

fun opt_list :: "'a option \<Rightarrow> 'a list" where
  "opt_list None = []"
| "opt_list (Some x) = [x]"

section \<open>Abstract specification of a flip\<close>

definition last_label :: "point_class list \<Rightarrow> point_class option" where
  "last_label xs = (case rev (filter (\<lambda>c. c \<noteq> PNone) xs) of [] \<Rightarrow> None | c # _ \<Rightarrow> Some c)"

definition flip_spec :: "point_class list \<Rightarrow> nat \<Rightarrow> bool" where
  "flip_spec cls i \<longleftrightarrow> cls ! i \<noteq> PNone \<and> last_label (take i cls) \<noteq> Some (cls ! i)"

text \<open>The last label recorded after a prefix, starting from a recorded label.\<close>

definition last_seen :: "point_class option \<Rightarrow> point_class list \<Rightarrow> point_class option" where
  "last_seen l xs = (case last_label xs of None \<Rightarrow> l | Some c \<Rightarrow> Some c)"

section \<open>Properties of the scans\<close>

lemma length_flip_scan [simp]: "length (flip_scan l cls) = length cls"
  by (induction l cls rule: flip_scan.induct) simp_all

lemma length_duration_scan [simp]: "length (duration_scan k fs) = length fs"
  by (induction k fs rule: duration_scan.induct) simp_all

lemma length_filter_scan [simp]: "length (filter_scan b fs) = length fs"
  by (induction b fs rule: filter_scan.induct) simp_all

lemma flip_scan_remdups_adj:
  "remdups_adj (opt_list l @ filter (\<lambda>c. c \<noteq> PNone) cls) =
   opt_list l @ map fst (filter snd (zip cls (flip_scan l cls)))"
proof (induction l cls rule: flip_scan.induct)
  case (1 l)
  then show ?case by (cases l) simp_all
next
  case (2 l c cs)
  show ?case
  proof (cases "c \<noteq> PNone \<and> l \<noteq> Some c")
    case True
    with "2.IH"(1) show ?thesis
      by (cases l) (simp_all add: remdups_adj_Cons)
  next
    case False
    with "2.IH"(2) show ?thesis
      by (cases l) (auto simp: remdups_adj_Cons)
  qed
qed

lemma filter_scan_count:
  "count_list (filter_scan b fs) True = (if b then count_list fs True else count_list fs True - 1)"
  by (induction b fs rule: filter_scan.induct) auto

lemma filter_scan_imp_flip:
  "i < length fs \<Longrightarrow> filter_scan b fs ! i \<Longrightarrow> fs ! i"
  by (induction b fs arbitrary: i rule: filter_scan.induct) (auto simp: nth_Cons split: nat.splits)

lemma duration_scan_at_flip:
  "i < length fs \<Longrightarrow> fs ! i \<Longrightarrow> duration_scan k fs ! i = 1"
  by (induction k fs arbitrary: i rule: duration_scan.induct) (auto simp: nth_Cons split: nat.splits)

lemma duration_scan_pos:
  "i < length fs \<Longrightarrow> 0 < duration_scan k fs ! i"
  by (induction k fs arbitrary: i rule: duration_scan.induct) (auto simp: nth_Cons split: nat.splits)


lemma last_label_Cons:
  "last_label (c # xs) =
     (case last_label xs of None \<Rightarrow> (if c = PNone then None else Some c) | Some d \<Rightarrow> Some d)"
  by (simp add: last_label_def split: list.splits)

lemma last_seen_Nil [simp]: "last_seen l [] = l"
  by (simp add: last_seen_def last_label_def)

lemma last_seen_Cons:
  "last_seen l (c # xs) = last_seen (if c \<noteq> PNone \<and> l \<noteq> Some c then Some c else l) xs"
  by (auto simp: last_seen_def last_label_Cons split: option.splits)

lemma flip_scan_nth:
  "i < length cls \<Longrightarrow>
   flip_scan l cls ! i \<longleftrightarrow> cls ! i \<noteq> PNone \<and> last_seen l (take i cls) \<noteq> Some (cls ! i)"
proof (induction cls arbitrary: l i)
  case Nil
  then show ?case by simp
next
  case (Cons c cs)
  show ?case
  proof (cases i)
    case 0
    then show ?thesis by simp
  next
    case (Suc j)
    with Cons.prems have "j < length cs" by simp
    with Cons.IH Suc show ?thesis by (simp add: last_seen_Cons)
  qed
qed

lemma min_max_flip_by_gen_spec:
  "i < length cls \<Longrightarrow> min_max_flip_by_gen cls ! i = flip_spec cls i"
  by (simp add: min_max_flip_by_gen_def flip_scan_nth flip_spec_def last_seen_def split: option.splits)

lemma ext_of_Unset [simp]: "ext_of c = Unset \<longleftrightarrow> c = PNone"
  by (cases c) simp_all

lemma ext_of_inj:
  "c \<noteq> PNone \<Longrightarrow> d \<noteq> PNone \<Longrightarrow> ext_of c = ext_of d \<longleftrightarrow> c = d"
  by (cases c; cases d) simp_all

lemma ext_of_differs:
  "c \<noteq> PNone \<Longrightarrow> l \<noteq> Some PNone \<Longrightarrow> ext_of c \<noteq> ext_opt l \<longleftrightarrow> l \<noteq> Some c"
  by (cases l) (auto simp: ext_of_inj)

lemma regime_scan_columns:
  "l \<noteq> Some PNone \<Longrightarrow>
   regime_scan \<lparr>last_ext = ext_opt l, regime_duration = k\<rparr> cls =
   zip (flip_scan l cls) (zip (duration_scan k (flip_scan l cls)) (filter_scan (l \<noteq> None) (flip_scan l cls)))"
proof (induction cls arbitrary: l k)
  case Nil
  then show ?case by simp
next
  case (Cons c cs)
  show ?case
  proof (cases "c \<noteq> PNone \<and> l \<noteq> Some c")
    case True
    then have "\<lparr>last_ext = ext_of c, regime_duration = 1\<rparr> = \<lparr>last_ext = ext_opt (Some c), regime_duration = 1\<rparr>"
      by simp
    with True Cons.prems Cons.IH [of "Some c" 1] show ?thesis
      by (cases l) (auto simp: regime_step_def ext_of_inj)
  next
    case False
    with Cons.prems Cons.IH [of l "Suc k"] show ?thesis
      by (auto simp: regime_step_def ext_of_differs)
  qed
qed

section \<open>The tracker's contract\<close>

lemma regime_scan_eq_columns:
  "regime_scan regime_init cls =
     zip (min_max_flip_by_gen cls)
       (zip (time_as_min_max (min_max_flip_by_gen cls)) (min_max_filter (min_max_flip_by_gen cls)))"
proof -
  have "regime_init = \<lparr>last_ext = ext_opt None, regime_duration = 0\<rparr>"
    by (simp add: regime_init_def)
  then show ?thesis
    using regime_scan_columns [of None 0 cls]
    by (simp add: min_max_flip_by_gen_def time_as_min_max_def min_max_filter_def)
qed

lemma flip_labels_remdups_adj:
  "map fst (filter snd (zip cls (min_max_flip_by_gen cls))) = remdups_adj (filter (\<lambda>c. c \<noteq> PNone) cls)"
  using flip_scan_remdups_adj [of None cls] by (simp add: min_max_flip_by_gen_def)

lemma flip_labels_alternate:
  "Suc j < length (remdups_adj xs) \<Longrightarrow> remdups_adj xs ! j \<noteq> remdups_adj xs ! Suc j"
  by (simp add: remdups_adj_adjacent)

lemma count_min_max_filter:
  "count_list (min_max_filter (min_max_flip_by_gen cls)) True = count_list (min_max_flip_by_gen cls) True - 1"
  by (simp add: min_max_filter_def filter_scan_count)

lemma count_flips_regimes:
  "count_list (min_max_flip_by_gen cls) True = length (remdups_adj (filter (\<lambda>c. c \<noteq> PNone) cls))"
proof -
  have "count_list fs True = length (filter snd (zip cls fs))" if "length fs = length cls" for fs
    using that by (induction fs cls rule: list_induct2) simp_all
  then show ?thesis
    using flip_labels_remdups_adj [of cls] by (metis length_map length_flip_scan min_max_flip_by_gen_def)
qed

lemma counted_flip_duration_one:
  "i < length cls \<Longrightarrow> min_max_filter (min_max_flip_by_gen cls) ! i \<Longrightarrow>
   time_as_min_max (min_max_flip_by_gen cls) ! i = 1"
  by (simp add: min_max_filter_def time_as_min_max_def min_max_flip_by_gen_def
      filter_scan_imp_flip duration_scan_at_flip)

lemma counted_flip_duration_one_witness:
  "min_max_filter (min_max_flip_by_gen [PNone, PMax, PNone, PMin]) ! 3 \<and>
   time_as_min_max (min_max_flip_by_gen [PNone, PMax, PNone, PMin]) ! 3 = 1"
proof -
  have c: "min_max_filter (min_max_flip_by_gen [PNone, PMax, PNone, PMin]) ! 3"
    by (simp add: min_max_filter_def min_max_flip_by_gen_def numeral_3_eq_3)
  show ?thesis using c counted_flip_duration_one [of 3 "[PNone, PMax, PNone, PMin]", OF _ c] by simp
qed

section \<open>Streams without extrema, counted durations\<close>

lemma flip_scan_no_extrema: "flip_scan l (replicate n PNone) = replicate n False"
  by (induction n) simp_all

lemma filter_scan_no_flips: "filter_scan b (replicate n False) = replicate n False"
  by (induction n arbitrary: b) simp_all

lemma counted_durations_all_one:
  "map (\<lambda>(t, c). real t) (filter snd (zip (duration_scan k fs) (filter_scan b fs))) =
   replicate (count_list (filter_scan b fs) True) 1"
  by (induction fs arbitrary: k b) auto

section \<open>Swapping minima and maxima\<close>

text \<open>The flip column does not change when minima and maxima are swapped.\<close>

lemma flip_scan_mirror:
  "flip_scan (map_option mirror_class lst) (map mirror_class cs) = flip_scan lst cs"
proof (induction cs arbitrary: lst)
  case Nil
  then show ?case by simp
next
  case (Cons c cs)
  have "(map_option mirror_class lst \<noteq> Some (mirror_class c)) = (lst \<noteq> Some c)"
    by (cases lst) simp_all
  with Cons.IH [of "Some c"] Cons.IH [of lst] show ?case by simp
qed

lemma min_max_flip_by_gen_mirror:
  "min_max_flip_by_gen (map mirror_class cls) = min_max_flip_by_gen cls"
  using flip_scan_mirror [of None cls] by (simp add: min_max_flip_by_gen_def)

end
