(* ===== verification/Summary.thy ===== *)
theory Summary
  imports Derivative Smoother Regime
begin

text \<open>
  The per-series algorithm of \<open>src/oscillator_classification/multi_sim_analysis.py\<close>:
  \<open>Experiment_Per_Cycle_Analysis.nash\<close> (lines 62--67) and
  \<open>run_classifacation_algorithm\<close> (lines 69--108). The method is split where its
  data flow splits: \<open>classify_run\<close> is lines 70--81 (differentiate, smooth,
  differentiate the unsmoothed first derivative again, smooth, build the data
  frame, classify with sensitivity 0.01), \<open>summarize_frame\<close> is lines 84--108
  (regime columns, flip-time and magnitude statistics, verdict, identifiers).
  The \<open>dot_class\<close> column of lines 82--83 is computed by the code but never read,
  so it does not appear in the result.
\<close>

section \<open>The verdict\<close>

definition nash :: "nat \<Rightarrow> pyfloat \<Rightarrow> int \<Rightarrow> real \<Rightarrow> int" where
  "nash pc_count pc_mag_value sensitivity_points sensitivity_magnitude =
     (if int pc_count \<le> sensitivity_points \<and> nan_le pc_mag_value sensitivity_magnitude
      then 1 else 0)"

section \<open>Classification of one series\<close>

text \<open>\<open>list(zip(x, y, smooth_yx_dx, smooth_yx_dx2))\<close> as a data frame.\<close>

definition build_frame :: "int list \<Rightarrow> real list \<Rightarrow> real list \<Rightarrow> real list \<Rightarrow> frame_row list" where
  "build_frame xs ys d1 d2 =
     map (\<lambda>(((a, b), c), d). \<lparr>col_x = a, col_y = b, col_yx_dx = c, col_yx_dx2 = d\<rparr>)
       (zip (zip (zip xs ys) d1) d2)"

definition classify_run :: "cycle_row list \<Rightarrow> (frame_row list \<times> point_class list) result" where
  "classify_run sim =
     (let step_size = 1; sensitivity = 1 / 100;
          xs = map generation sim; ys = map bush_pw_mean sim
      in bind_r (aprox_derv_central ys 1 step_size) (\<lambda>yx_dx.
         bind_r (savitzky_golay yx_dx 3 1 0 1) (\<lambda>smooth_yx_dx.
         bind_r (aprox_derv_central yx_dx step_size step_size) (\<lambda>yx_dx2.
         bind_r (savitzky_golay yx_dx2 3 1 0 1) (\<lambda>smooth_yx_dx2.
           let df = build_frame xs ys smooth_yx_dx smooth_yx_dx2
           in Inr (df, inflection_point_classifaction df sensitivity))))))"

section \<open>Statistics of one series\<close>

text \<open>Lines 88--90: the regime durations of the counted flip rows.\<close>

definition flip_time_stats :: "nat list \<Rightarrow> bool list \<Rightarrow> pyfloat \<times> pyfloat \<times> pyfloat" where
  "flip_time_stats durations filt =
     (let ts = map (\<lambda>(t, c). real t) (filter snd (zip durations filt))
      in (nan_mean ts, std_ddof 1 ts, var_ddof 1 ts))"

text \<open>Lines 92--100: the observations at the rows labelled \<open>min\<close> or \<open>max\<close>.\<close>

definition extremum_values :: "point_class list \<Rightarrow> real list \<Rightarrow> real list" where
  "extremum_values cls ys = map snd (filter (\<lambda>(c, v). c \<noteq> PNone) (zip cls ys))"

definition magnitude_stats :: "point_class list \<Rightarrow> real list \<Rightarrow> pyfloat \<times> pyfloat \<times> pyfloat" where
  "magnitude_stats cls ys =
     (let ext = extremum_values cls ys
      in if length ext = 0 then (Some 0, Some 0, Some 0)
         else let m = map abs (np_diff ext) in (nan_mean m, std_ddof 0 m, var_ddof 0 m))"

definition summarize_frame ::
  "per_cycle_analysis \<Rightarrow> cycle_row list \<Rightarrow> frame_row list \<Rightarrow> point_class list \<Rightarrow> summary_row" where
  "summarize_frame self sim df cls =
     (let flips = min_max_flip_by_gen cls;
          durations = time_as_min_max flips;
          filt = min_max_filter flips;
          (mean_t, std_t, var_t) = flip_time_stats durations filt;
          number_of_inf_points = count_list filt True;
          (mean_m, std_m, var_m) = magnitude_stats cls (map col_y df);
          nash_v = nash number_of_inf_points mean_m
                     (nash_inf_count_sensitivity self) (nash_inf_mag_sensitivity self)
      in \<lparr>s_exp_name = exp_name self, s_sim_id = col_max (map sim_id sim),
          s_exp = col_max (map experiment_col sim), s_org = col_max (map org sim),
          count_str_flip = number_of_inf_points,
          mean_strategy_flip_time = mean_t, std_strategy_flip_time = std_t,
          var_strategy_flip_time = var_t,
          mean_magnitude_of_strategy_flip = mean_m, std_magnitude_of_strategy_flip = std_m,
          var_magnitude_of_strategy_flip = var_m, nash_val = nash_v\<rparr>)"

definition run_classifacation_algorithm ::
  "per_cycle_analysis \<Rightarrow> cycle_row list \<Rightarrow> summary_row result" where
  "run_classifacation_algorithm self sim =
     bind_r (classify_run sim) (\<lambda>(df, cls). Inr (summarize_frame self sim df cls))"

section \<open>Properties of one run\<close>

lemma classify_run_short:
  "length sim < 3 \<Longrightarrow> classify_run sim = Inl InvalidWindowError"
  by (simp add: classify_run_def aprox_derv_central_ok savitzky_golay_3_1)

lemma length_build_frame [simp]:
  "length (build_frame xs ys d1 d2) = min (min (min (length xs) (length ys)) (length d1)) (length d2)"
  by (simp add: build_frame_def)

lemma classify_run_long:
  assumes "3 \<le> length sim"
  shows "\<exists>df. classify_run sim = Inr (df, inflection_point_classifaction df (1 / 100))
           \<and> length df = length sim \<and> map col_y df = map bush_pw_mean sim"
proof -
  let ?ys = "map bush_pw_mean sim"
  let ?d1 = "map (derv_at ?ys 1 1) [0..<length sim]"
  let ?d2 = "map (derv_at ?d1 1 1) [0..<length sim]"
  obtain s1 where s1: "savitzky_golay ?d1 3 1 0 1 = Inr s1" and l1: "length s1 = length sim"
    using assms by (simp add: savitzky_golay_3_1)
  obtain s2 where s2: "savitzky_golay ?d2 3 1 0 1 = Inr s2" and l2: "length s2 = length sim"
    using assms by (simp add: savitzky_golay_3_1)
  let ?df = "build_frame (map generation sim) ?ys s1 s2"
  have "classify_run sim = Inr (?df, inflection_point_classifaction ?df (1 / 100))"
    unfolding classify_run_def Let_def
    using s1 s2 by (simp add: aprox_derv_central_ok)
  moreover have "map col_y ?df = ?ys"
    using l1 l2 by (simp add: build_frame_def list_eq_iff_nth_eq)
  ultimately show ?thesis using l1 l2 by auto
qed


lemma summarize_frame_fields:
  "count_str_flip (summarize_frame self sim df cls) = count_list (min_max_filter (min_max_flip_by_gen cls)) True"
  "mean_strategy_flip_time (summarize_frame self sim df cls) =
     fst (flip_time_stats (time_as_min_max (min_max_flip_by_gen cls)) (min_max_filter (min_max_flip_by_gen cls)))"
  "std_strategy_flip_time (summarize_frame self sim df cls) =
     fst (snd (flip_time_stats (time_as_min_max (min_max_flip_by_gen cls)) (min_max_filter (min_max_flip_by_gen cls))))"
  "var_strategy_flip_time (summarize_frame self sim df cls) =
     snd (snd (flip_time_stats (time_as_min_max (min_max_flip_by_gen cls)) (min_max_filter (min_max_flip_by_gen cls))))"
  "mean_magnitude_of_strategy_flip (summarize_frame self sim df cls) = fst (magnitude_stats cls (map col_y df))"
  "std_magnitude_of_strategy_flip (summarize_frame self sim df cls) = fst (snd (magnitude_stats cls (map col_y df)))"
  "var_magnitude_of_strategy_flip (summarize_frame self sim df cls) = snd (snd (magnitude_stats cls (map col_y df)))"
  "nash_val (summarize_frame self sim df cls) =
     nash (count_list (min_max_filter (min_max_flip_by_gen cls)) True) (fst (magnitude_stats cls (map col_y df)))
       (nash_inf_count_sensitivity self) (nash_inf_mag_sensitivity self)"
  by (simp_all add: summarize_frame_def Let_def case_prod_unfold)

lemma run_classifacation_algorithm_Inr:
  "run_classifacation_algorithm self sim = Inr r \<Longrightarrow>
   \<exists>df. classify_run sim = Inr (df, inflection_point_classifaction df (1 / 100))
       \<and> r = summarize_frame self sim df (inflection_point_classifaction df (1 / 100))
       \<and> length df = length sim \<and> map col_y df = map bush_pw_mean sim"
proof -
  assume run: "run_classifacation_algorithm self sim = Inr r"
  have "3 \<le> length sim"
  proof (rule ccontr)
    assume "\<not> 3 \<le> length sim"
    with run show False by (simp add: run_classifacation_algorithm_def classify_run_short)
  qed
  then obtain df where "classify_run sim = Inr (df, inflection_point_classifaction df (1 / 100))"
      "length df = length sim" "map col_y df = map bush_pw_mean sim"
    using classify_run_long by blast
  with run show ?thesis by (auto simp: run_classifacation_algorithm_def)
qed

lemma run_classifacation_algorithm_short_iff:
  "(run_classifacation_algorithm self sim = Inl InvalidWindowError \<longleftrightarrow> length sim < 3) \<and>
   ((\<exists>r. run_classifacation_algorithm self sim = Inr r) \<longleftrightarrow> 3 \<le> length sim)"
proof (cases "length sim < 3")
  case True
  then show ?thesis by (simp add: run_classifacation_algorithm_def classify_run_short)
next
  case False
  then have "3 \<le> length sim" by simp
  then obtain df where "classify_run sim = Inr (df, inflection_point_classifaction df (1 / 100))"
    using classify_run_long by blast
  with False show ?thesis by (simp add: run_classifacation_algorithm_def)
qed

lemma flip_time_stats_columns:
  "flip_time_stats (time_as_min_max fs) (min_max_filter fs) =
     (let n = count_list (min_max_filter fs) True
      in (if n = 0 then None else Some 1, if n \<le> 1 then None else Some 0, if n \<le> 1 then None else Some 0))"
  by (simp add: flip_time_stats_def time_as_min_max_def min_max_filter_def counted_durations_all_one
      var_ddof_replicate std_ddof_replicate Let_def)

text \<open>
  C3. The flip-time statistics are degenerate: every counted flip row has regime
  duration 1, so the mean flip time is 1 (NaN without counted flips) and the standard
  deviation and variance are 0 (NaN with fewer than two counted flips).
\<close>

theorem run_flip_time_degenerate:
  "run_classifacation_algorithm self sim = Inr r \<Longrightarrow>
   mean_strategy_flip_time r = (if count_str_flip r = 0 then None else Some 1) \<and>
   std_strategy_flip_time r = (if count_str_flip r \<le> 1 then None else Some 0) \<and>
   var_strategy_flip_time r = (if count_str_flip r \<le> 1 then None else Some 0)"
  by (auto dest!: run_classifacation_algorithm_Inr simp: summarize_frame_fields flip_time_stats_columns Let_def)

text \<open>
  C1. The number of counted flips in the summary row is the number of direction
  reversals of the classified extremum stream: the length of the stream of minima and
  maxima with repeated labels collapsed, minus one for the first regime.
\<close>

theorem run_count_str_flip:
  "run_classifacation_algorithm self sim = Inr r \<Longrightarrow>
   \<exists>df cls. classify_run sim = Inr (df, cls) \<and>
     count_str_flip r = length (remdups_adj (filter (\<lambda>c. c \<noteq> PNone) cls)) - 1"
  by (fastforce dest!: run_classifacation_algorithm_Inr
      simp: summarize_frame_fields count_min_max_filter count_flips_regimes)


lemma magnitude_stats_nan:
  "fst (magnitude_stats cls ys) = None \<longleftrightarrow> length (extremum_values cls ys) = 1"
proof (cases "extremum_values cls ys")
  case Nil
  then show ?thesis by (simp add: magnitude_stats_def)
next
  case (Cons a zs)
  then show ?thesis by (cases zs) (simp_all add: magnitude_stats_def Let_def)
qed

text \<open>
  C4. The mean flip magnitude is NaN exactly when one row of the series is labelled
  min or max: the code guards only the case of no such row.
\<close>

theorem run_magnitude_nan:
  "run_classifacation_algorithm self sim = Inr r \<Longrightarrow>
   \<exists>df cls. classify_run sim = Inr (df, cls) \<and>
     (mean_magnitude_of_strategy_flip r = None \<longleftrightarrow>
      length (extremum_values cls (map bush_pw_mean sim)) = 1)"
  by (fastforce dest!: run_classifacation_algorithm_Inr simp: summarize_frame_fields magnitude_stats_nan)

text \<open>
  C6. The verdict is 1 exactly when the counted flips are at most the count
  sensitivity and the mean magnitude is a number at most the magnitude sensitivity;
  a NaN magnitude gives 0.
\<close>

theorem run_nash_verdict:
  "run_classifacation_algorithm self sim = Inr r \<Longrightarrow>
   nash_val r =
     (if int (count_str_flip r) \<le> nash_inf_count_sensitivity self \<and>
         (\<exists>m. mean_magnitude_of_strategy_flip r = Some m \<and> m \<le> nash_inf_mag_sensitivity self)
      then 1 else 0)"
proof -
  assume "run_classifacation_algorithm self sim = Inr r"
  then obtain df where r: "r = summarize_frame self sim df (inflection_point_classifaction df (1 / 100))"
    using run_classifacation_algorithm_Inr by blast
  have nl: "nan_le m c \<longleftrightarrow> (\<exists>x. m = Some x \<and> x \<le> c)" for m c
    by (cases m) simp_all
  show ?thesis by (simp add: r summarize_frame_fields nash_def nl count_min_max_filter)
qed



lemma classify_run_frame:
  assumes "3 \<le> length sim"
  shows "\<exists>s1 s2. savitzky_golay (map (derv_at (map bush_pw_mean sim) 1 1) [0..<length sim]) 3 (Suc 0) 0 1 = Inr s1
    \<and> classify_run sim = Inr (build_frame (map generation sim) (map bush_pw_mean sim) s1 s2,
          inflection_point_classifaction (build_frame (map generation sim) (map bush_pw_mean sim) s1 s2) (1 / 100))"
proof -
  let ?ys = "map bush_pw_mean sim"
  let ?d1 = "map (derv_at ?ys 1 1) [0..<length sim]"
  let ?d2 = "map (derv_at ?d1 1 1) [0..<length sim]"
  obtain s1 where s1: "savitzky_golay ?d1 3 (Suc 0) 0 1 = Inr s1"
    using assms by (simp add: savitzky_golay_3_1)
  obtain s2 where s2: "savitzky_golay ?d2 3 (Suc 0) 0 1 = Inr s2"
    using assms by (simp add: savitzky_golay_3_1)
  have "classify_run sim = Inr (build_frame (map generation sim) ?ys s1 s2,
          inflection_point_classifaction (build_frame (map generation sim) ?ys s1 s2) (1 / 100))"
    unfolding classify_run_def Let_def using s1 s2 by (simp add: aprox_derv_central_ok)
  with s1 show ?thesis by blast
qed

lemma set_col_yx_dx_build_frame:
  "r \<in> set (build_frame xs ys d1 d2) \<Longrightarrow> col_yx_dx r \<in> set d1"
proof -
  assume "r \<in> set (build_frame xs ys d1 d2)"
  then obtain a b c d where r: "r = \<lparr>col_x = a, col_y = b, col_yx_dx = c, col_yx_dx2 = d\<rparr>"
    and m: "(((a, b), c), d) \<in> set (zip (zip (zip xs ys) d1) d2)"
    by (auto simp: build_frame_def)
  from m have "((a, b), c) \<in> set (zip (zip xs ys) d1)" by (rule set_zip_leftD)
  then have "c \<in> set d1" by (rule set_zip_rightD)
  with r show ?thesis by simp
qed

lemma classify_no_extrema:
  assumes "(\<forall>r\<in>set df. 0 < col_yx_dx r) \<or> (\<forall>r\<in>set df. col_yx_dx r < 0) \<or> (\<forall>r\<in>set df. col_yx_dx r = 0)"
  shows "inflection_point_classifaction df s = replicate (length df) PNone"
proof -
  have "classify_at df s i = PNone" if "i < length df" for i
  proof -
    have "i - 1 < length df" using that by simp
    then have "df ! (i - 1) \<in> set df" "df ! i \<in> set df" using that by simp_all
    then show ?thesis using assms by (auto simp: classify_at_def)
  qed
  then show ?thesis by (simp add: list_eq_iff_nth_eq)
qed

lemma extremum_values_none: "extremum_values (replicate n PNone) ys = []"
  by (induction n arbitrary: ys) (auto simp: extremum_values_def zip_Cons1 split: list.splits)

lemma run_no_extrema:
  assumes "classify_run sim = Inr (df, replicate (length df) PNone)"
  shows "run_classifacation_algorithm self sim = Inr (summarize_frame self sim df (replicate (length df) PNone))
    \<and> count_str_flip (summarize_frame self sim df (replicate (length df) PNone)) = 0
    \<and> mean_magnitude_of_strategy_flip (summarize_frame self sim df (replicate (length df) PNone)) = Some 0
    \<and> std_magnitude_of_strategy_flip (summarize_frame self sim df (replicate (length df) PNone)) = Some 0
    \<and> var_magnitude_of_strategy_flip (summarize_frame self sim df (replicate (length df) PNone)) = Some 0
    \<and> nash_val (summarize_frame self sim df (replicate (length df) PNone)) =
         (if 0 \<le> nash_inf_count_sensitivity self \<and> 0 \<le> nash_inf_mag_sensitivity self then 1 else 0)"
  using assms
  by (simp add: run_classifacation_algorithm_def summarize_frame_fields min_max_flip_by_gen_def
      min_max_filter_def flip_scan_no_extrema filter_scan_no_flips magnitude_stats_def
      extremum_values_none nash_def)


lemma run_stable_if_slope_sign:
  assumes len: "3 \<le> length sim"
    and sign: "(\<forall>x\<in>set (map (derv_at (map bush_pw_mean sim) 1 1) [0..<length sim]). 0 < x) \<or>
               (\<forall>x\<in>set (map (derv_at (map bush_pw_mean sim) 1 1) [0..<length sim]). x < 0) \<or>
               (\<forall>x\<in>set (map (derv_at (map bush_pw_mean sim) 1 1) [0..<length sim]). x = 0)"
  shows "\<exists>r. run_classifacation_algorithm self sim = Inr r \<and> count_str_flip r = 0
    \<and> mean_magnitude_of_strategy_flip r = Some 0 \<and> std_magnitude_of_strategy_flip r = Some 0
    \<and> var_magnitude_of_strategy_flip r = Some 0
    \<and> nash_val r = (if 0 \<le> nash_inf_count_sensitivity self \<and> 0 \<le> nash_inf_mag_sensitivity self then 1 else 0)"
proof -
  obtain s1 s2 where s1: "savitzky_golay (map (derv_at (map bush_pw_mean sim) 1 1) [0..<length sim]) 3 (Suc 0) 0 1 = Inr s1"
    and cr: "classify_run sim = Inr (build_frame (map generation sim) (map bush_pw_mean sim) s1 s2,
          inflection_point_classifaction (build_frame (map generation sim) (map bush_pw_mean sim) s1 s2) (1 / 100))"
    using classify_run_frame [OF len] by blast
  let ?df = "build_frame (map generation sim) (map bush_pw_mean sim) s1 s2"
  have "(\<forall>x\<in>set s1. 0 < x) \<or> (\<forall>x\<in>set s1. x < 0) \<or> (\<forall>x\<in>set s1. x = 0)"
    using sign savitzky_golay_3_1_closed [OF s1] list_mean_sign by blast
  then have "(\<forall>r\<in>set ?df. 0 < col_yx_dx r) \<or> (\<forall>r\<in>set ?df. col_yx_dx r < 0) \<or> (\<forall>r\<in>set ?df. col_yx_dx r = 0)"
    using set_col_yx_dx_build_frame by blast
  then have "classify_run sim = Inr (?df, replicate (length ?df) PNone)"
    using cr classify_no_extrema by simp
  from run_no_extrema [OF this] show ?thesis by blast
qed

text \<open>
  C7. A strictly increasing or strictly decreasing series of at least 3 points
  has no extremum: no flip is counted, the magnitude statistics are 0, and the verdict
  is 1 whenever both sensitivities are non-negative.
\<close>

theorem run_strictly_monotone_stable:
  assumes "sorted_wrt (<) (map bush_pw_mean sim) \<or> sorted_wrt (>) (map bush_pw_mean sim)"
    and "3 \<le> length sim"
  shows "\<exists>r. run_classifacation_algorithm self sim = Inr r \<and> count_str_flip r = 0
    \<and> mean_magnitude_of_strategy_flip r = Some 0 \<and> std_magnitude_of_strategy_flip r = Some 0
    \<and> var_magnitude_of_strategy_flip r = Some 0
    \<and> nash_val r = (if 0 \<le> nash_inf_count_sensitivity self \<and> 0 \<le> nash_inf_mag_sensitivity self then 1 else 0)"
proof (rule run_stable_if_slope_sign [OF assms(2)])
  show "(\<forall>x\<in>set (map (derv_at (map bush_pw_mean sim) 1 1) [0..<length sim]). 0 < x) \<or>
        (\<forall>x\<in>set (map (derv_at (map bush_pw_mean sim) 1 1) [0..<length sim]). x < 0) \<or>
        (\<forall>x\<in>set (map (derv_at (map bush_pw_mean sim) 1 1) [0..<length sim]). x = 0)"
    using assms derv_at_unit_sign [of "map bush_pw_mean sim"] by auto
qed

text \<open>
  C8. A constant series of at least 3 points has no extremum: no flip is counted,
  the magnitude statistics are 0, and the verdict is 1 whenever both sensitivities
  are non-negative.
\<close>

theorem run_constant_stable:
  assumes "\<forall>row\<in>set sim. bush_pw_mean row = c" and "3 \<le> length sim"
  shows "\<exists>r. run_classifacation_algorithm self sim = Inr r \<and> count_str_flip r = 0
    \<and> mean_magnitude_of_strategy_flip r = Some 0 \<and> std_magnitude_of_strategy_flip r = Some 0
    \<and> var_magnitude_of_strategy_flip r = Some 0
    \<and> nash_val r = (if 0 \<le> nash_inf_count_sensitivity self \<and> 0 \<le> nash_inf_mag_sensitivity self then 1 else 0)"
proof (rule run_stable_if_slope_sign [OF assms(2)])
  have "map bush_pw_mean sim = replicate (length sim) c"
    using assms(1) by (simp add: list_eq_iff_nth_eq)
  then show "(\<forall>x\<in>set (map (derv_at (map bush_pw_mean sim) 1 1) [0..<length sim]). 0 < x) \<or>
        (\<forall>x\<in>set (map (derv_at (map bush_pw_mean sim) 1 1) [0..<length sim]). x < 0) \<or>
        (\<forall>x\<in>set (map (derv_at (map bush_pw_mean sim) 1 1) [0..<length sim]). x = 0)"
    by (auto simp: derv_at_unit_const)
qed


text \<open>
  C2. The per-series algorithm fails exactly on a series shorter than the smoothing
  window of 3, with \<open>InvalidWindowError\<close>; on every longer series it returns a
  summary row.
\<close>

theorem run_classifacation_algorithm_fails_iff_short:
  "(run_classifacation_algorithm self sim = Inl InvalidWindowError \<longleftrightarrow> length sim < 3) \<and>
   ((\<exists>r. run_classifacation_algorithm self sim = Inr r) \<longleftrightarrow> 3 \<le> length sim)"
  by (rule run_classifacation_algorithm_short_iff)

section \<open>Shifted and reflected series\<close>

lemma extremum_values_mirror:
  "extremum_values (map mirror_class cls) ys = extremum_values cls ys"
proof (induction cls arbitrary: ys)
  case Nil
  then show ?case by (simp add: extremum_values_def)
next
  case (Cons c cls)
  then show ?case by (cases ys) (simp_all add: extremum_values_def)
qed

lemma extremum_values_affine:
  "extremum_values cls (map g ys) = map g (extremum_values cls ys)"
proof (induction cls arbitrary: ys)
  case Nil
  then show ?case by (simp add: extremum_values_def)
next
  case (Cons c cls)
  then show ?case by (cases ys) (simp_all add: extremum_values_def)
qed

lemma magnitude_stats_affine:
  assumes "\<bar>a\<bar> = 1"
  shows "magnitude_stats cls (map (\<lambda>v. a * v + c) ys) = magnitude_stats cls ys"
proof -
  have "abs \<circ> (*) a = (abs :: real \<Rightarrow> real)"
    using assms by (simp add: fun_eq_iff abs_mult)
  then show ?thesis
    by (simp add: magnitude_stats_def Let_def extremum_values_affine np_diff_affine)
qed

lemma magnitude_stats_mirror:
  "magnitude_stats (map mirror_class cls) ys = magnitude_stats cls ys"
  by (simp add: magnitude_stats_def extremum_values_mirror)

lemma build_frame_columns:
  assumes "length xs = n" "length ys = n" "length d1 = n" "length d2 = n"
  shows "map col_y (build_frame xs ys d1 d2) = ys"
    "map col_yx_dx (build_frame xs ys d1 d2) = d1"
    "map col_yx_dx2 (build_frame xs ys d1 d2) = d2"
  using assms by (simp_all add: build_frame_def list_eq_iff_nth_eq)

lemma summarize_frame_cong:
  assumes "min_max_flip_by_gen cls' = min_max_flip_by_gen cls"
    "magnitude_stats cls' (map col_y df') = magnitude_stats cls (map col_y df)"
    "map sim_id sim' = map sim_id sim" "map experiment_col sim' = map experiment_col sim"
    "map org sim' = map org sim"
  shows "summarize_frame self sim' df' cls' = summarize_frame self sim df cls"
  unfolding summarize_frame_def by (simp only: assms)

lemma classify_run_affine:
  assumes n: "3 \<le> length sim"
  shows "\<exists>df df'. classify_run sim = Inr (df, inflection_point_classifaction df (1 / 100)) \<and>
     classify_run (map (\<lambda>r. r\<lparr>bush_pw_mean := a * bush_pw_mean r + c\<rparr>) sim) =
       Inr (df', inflection_point_classifaction df' (1 / 100)) \<and>
     length df' = length df \<and> map col_y df' = map (\<lambda>v. a * v + c) (map col_y df) \<and>
     map col_yx_dx df' = map ((*) a) (map col_yx_dx df) \<and>
     map col_yx_dx2 df' = map ((*) a) (map col_yx_dx2 df)"
proof -
  let ?sim' = "map (\<lambda>r. r\<lparr>bush_pw_mean := a * bush_pw_mean r + c\<rparr>) sim"
  let ?ys = "map bush_pw_mean sim"
  let ?n = "length sim"
  let ?d1 = "map (derv_at ?ys 1 1) [0..<?n]"
  let ?d2 = "map (derv_at ?d1 1 1) [0..<?n]"
  have ys': "map bush_pw_mean ?sim' = map (\<lambda>v. a * v + c) ?ys"
    by simp
  have d1': "map (derv_at (map (\<lambda>v. a * v + c) ?ys) 1 1) [0..<?n] = map ((*) a) ?d1"
    using map_derv_at_affine [of a c ?ys 1 1] by (simp only: length_map)
  have d2': "map (derv_at (map ((*) a) ?d1) 1 1) [0..<?n] = map ((*) a) ?d2"
    using map_derv_at_scale [of a ?d1 1 1] by (simp only: length_map length_upt diff_zero)
  obtain s1 where s1: "savitzky_golay ?d1 3 1 0 1 = Inr s1" and l1: "length s1 = ?n"
    using n by (simp add: savitzky_golay_3_1)
  obtain s2 where s2: "savitzky_golay ?d2 3 1 0 1 = Inr s2" and l2: "length s2 = ?n"
    using n by (simp add: savitzky_golay_3_1)
  let ?df = "build_frame (map generation sim) ?ys s1 s2"
  let ?df' = "build_frame (map generation sim) (map (\<lambda>v. a * v + c) ?ys) (map ((*) a) s1) (map ((*) a) s2)"
  have "classify_run sim = Inr (?df, inflection_point_classifaction ?df (1 / 100))"
    unfolding classify_run_def Let_def using s1 s2 by (simp add: aprox_derv_central_ok)
  moreover have "classify_run ?sim' = Inr (?df', inflection_point_classifaction ?df' (1 / 100))"
  proof -
    have g: "map generation ?sim' = map generation sim" by simp
    have "length ?sim' = ?n" by simp
    then show ?thesis
      unfolding classify_run_def Let_def g
      using s1 s2 d1' d2' ys'
      by (simp only: aprox_derv_central_ok zero_less_one savitzky_golay_scale bind_r_simps
            map_sum.simps id_def length_map length_upt diff_zero)
  qed
  moreover have "map col_y ?df = ?ys" "map col_yx_dx ?df = s1" "map col_yx_dx2 ?df = s2"
    using l1 l2 by (simp_all add: build_frame_columns)
  moreover have "map col_y ?df' = map (\<lambda>v. a * v + c) ?ys"
    "map col_yx_dx ?df' = map ((*) a) s1" "map col_yx_dx2 ?df' = map ((*) a) s2"
    using l1 l2 by (simp_all add: build_frame_columns)
  ultimately show ?thesis using l1 l2 by (intro exI [of _ ?df] exI [of _ ?df']) simp
qed

text \<open>
  C16. The summary row of a series does not change when the series is shifted by a
  constant or reflected: observations \<open>y\<close> and \<open>a * y + c\<close> with \<open>a = 1\<close> or
  \<open>a = -1\<close> give the same result, errors included. Minima and maxima swap under
  reflection, and neither the flip count nor the magnitudes see it.
\<close>

theorem run_affine_invariant:
  assumes a: "a = 1 \<or> a = -1"
  shows "run_classifacation_algorithm self (map (\<lambda>r. r\<lparr>bush_pw_mean := a * bush_pw_mean r + c\<rparr>) sim) =
    run_classifacation_algorithm self sim"
proof (cases "length sim < 3")
  case True
  then show ?thesis by (simp add: run_classifacation_algorithm_def classify_run_short)
next
  case False
  then obtain df df' where
    c: "classify_run sim = Inr (df, inflection_point_classifaction df (1 / 100))" and
    c': "classify_run (map (\<lambda>r. r\<lparr>bush_pw_mean := a * bush_pw_mean r + c\<rparr>) sim) =
       Inr (df', inflection_point_classifaction df' (1 / 100))" and
    l: "length df' = length df" and y: "map col_y df' = map (\<lambda>v. a * v + c) (map col_y df)" and
    d1: "map col_yx_dx df' = map ((*) a) (map col_yx_dx df)" and
    d2: "map col_yx_dx2 df' = map ((*) a) (map col_yx_dx2 df)"
    using classify_run_affine [of sim a c] by auto
  let ?cls = "inflection_point_classifaction df (1 / 100)"
  have cls': "inflection_point_classifaction df' (1 / 100) =
      (if a = 1 then ?cls else map mirror_class ?cls)"
    by (rule inflection_point_classifaction_scaled [OF a l d1 d2])
  have flips: "min_max_flip_by_gen (inflection_point_classifaction df' (1 / 100)) = min_max_flip_by_gen ?cls"
    using cls' by (simp add: min_max_flip_by_gen_mirror)
  have "\<bar>a\<bar> = 1" using a by auto
  then have mags: "magnitude_stats (inflection_point_classifaction df' (1 / 100)) (map col_y df') =
      magnitude_stats ?cls (map col_y df)"
    using cls' y magnitude_stats_affine [of a ?cls c "map col_y df"]
      magnitude_stats_mirror [of ?cls "map (\<lambda>v. a * v + c) (map col_y df)"]
    by (cases "a = 1") simp_all
  show ?thesis
    unfolding run_classifacation_algorithm_def c c'
    by (simp add: summarize_frame_cong [OF flips mags])
qed

section \<open>Observations determine the summary\<close>

lemma classify_run_same_observations:
  assumes ys: "map bush_pw_mean sim' = map bush_pw_mean sim" and n: "3 \<le> length sim"
  shows "\<exists>df df'. classify_run sim = Inr (df, inflection_point_classifaction df (1 / 100)) \<and>
     classify_run sim' = Inr (df', inflection_point_classifaction df' (1 / 100)) \<and>
     length df' = length df \<and> map col_y df' = map col_y df \<and>
     map col_yx_dx df' = map col_yx_dx df \<and> map col_yx_dx2 df' = map col_yx_dx2 df"
proof -
  let ?ys = "map bush_pw_mean sim"
  let ?n = "length sim"
  have l: "length sim' = ?n" using ys by (metis length_map)
  let ?d1 = "map (derv_at ?ys 1 1) [0..<?n]"
  let ?d2 = "map (derv_at ?d1 1 1) [0..<?n]"
  obtain s1 where s1: "savitzky_golay ?d1 3 1 0 1 = Inr s1" and l1: "length s1 = ?n"
    using n by (simp add: savitzky_golay_3_1)
  obtain s2 where s2: "savitzky_golay ?d2 3 1 0 1 = Inr s2" and l2: "length s2 = ?n"
    using n by (simp add: savitzky_golay_3_1)
  let ?df = "build_frame (map generation sim) ?ys s1 s2"
  let ?df' = "build_frame (map generation sim') ?ys s1 s2"
  have "classify_run sim = Inr (?df, inflection_point_classifaction ?df (1 / 100))"
    unfolding classify_run_def Let_def using s1 s2 by (simp add: aprox_derv_central_ok)
  moreover have "classify_run sim' = Inr (?df', inflection_point_classifaction ?df' (1 / 100))"
    unfolding classify_run_def Let_def ys using s1 s2 by (simp add: aprox_derv_central_ok)
  moreover have "map col_y ?df = ?ys" "map col_yx_dx ?df = s1" "map col_yx_dx2 ?df = s2"
    "map col_y ?df' = ?ys" "map col_yx_dx ?df' = s1" "map col_yx_dx2 ?df' = s2"
    using l l1 l2 by (simp_all add: build_frame_columns)
  ultimately show ?thesis using l l1 l2 by (intro exI [of _ ?df] exI [of _ ?df']) simp
qed

text \<open>
  C18. The summary row of a group depends only on its observations and its
  identifier columns: generation and cycle numbers (gaps included) do not change
  it, as spec section 4.4 requires of the regime durations.
\<close>

theorem run_observation_determined:
  assumes ys: "map bush_pw_mean sim' = map bush_pw_mean sim"
    and ids: "map sim_id sim' = map sim_id sim" "map experiment_col sim' = map experiment_col sim"
      "map org sim' = map org sim"
  shows "run_classifacation_algorithm self sim' = run_classifacation_algorithm self sim"
proof (cases "length sim < 3")
  case True
  moreover have "length sim' = length sim" using ys by (metis length_map)
  ultimately show ?thesis by (simp add: run_classifacation_algorithm_def classify_run_short)
next
  case False
  then obtain df df' where
    c: "classify_run sim = Inr (df, inflection_point_classifaction df (1 / 100))" and
    c': "classify_run sim' = Inr (df', inflection_point_classifaction df' (1 / 100))" and
    l: "length df' = length df" and y: "map col_y df' = map col_y df" and
    d1: "map col_yx_dx df' = map col_yx_dx df" and d2: "map col_yx_dx2 df' = map col_yx_dx2 df"
    using classify_run_same_observations [OF ys] by auto
  have cls: "inflection_point_classifaction df' (1 / 100) = inflection_point_classifaction df (1 / 100)"
    by (rule inflection_point_classifaction_same_slopes [OF l d1 d2])
  have "summarize_frame self sim' df' (inflection_point_classifaction df' (1 / 100)) =
      summarize_frame self sim df (inflection_point_classifaction df (1 / 100))"
    by (rule summarize_frame_cong) (simp_all only: cls y ids)
  then show ?thesis
    unfolding run_classifacation_algorithm_def c c' by simp
qed

section \<open>Round trip on quadratic series\<close>

lemma build_frame_nth:
  "i < length xs \<Longrightarrow> i < length ys \<Longrightarrow> i < length d1 \<Longrightarrow> i < length d2 \<Longrightarrow>
   col_yx_dx (build_frame xs ys d1 d2 ! i) = d1 ! i \<and> col_yx_dx2 (build_frame xs ys d1 d2 ! i) = d2 ! i"
  by (simp add: build_frame_def)

text \<open>
  C20. The spec's round trip (section 8) through the code's own pipeline: for
  observations \<open>a i\<^sup>2 + b i + c\<close> at row \<open>i\<close>, the smoothed first-derivative
  column of the frame is the exact derivative \<open>2 a i + b\<close> at every row at least two
  rows from both ends, and the smoothed second-derivative column is the exact \<open>2 a\<close>
  at every row at least three rows from both ends (the second pass differentiates the
  unsmoothed first derivative, whose end values are one-sided).
\<close>

theorem classify_run_quadratic:
  assumes ys: "map bush_pw_mean sim = map (\<lambda>i. a * (real i)\<^sup>2 + b * real i + c) [0..<length sim]"
    and n: "3 \<le> length sim"
  shows "\<exists>df. classify_run sim = Inr (df, inflection_point_classifaction df (1 / 100)) \<and>
    length df = length sim \<and>
    (\<forall>i. 2 \<le> i \<and> i + 2 < length sim \<longrightarrow> col_yx_dx (df ! i) = 2 * a * real i + b) \<and>
    (\<forall>i. 3 \<le> i \<and> i + 3 < length sim \<longrightarrow> col_yx_dx2 (df ! i) = 2 * a)"
proof -
  let ?n = "length sim"
  let ?q = "map (\<lambda>i. a * (real i)\<^sup>2 + b * real i + c) [0..<?n]"
  let ?d1 = "map (derv_at ?q 1 1) [0..<?n]"
  let ?d2 = "map (derv_at ?d1 1 1) [0..<?n]"
  obtain s1 where s1: "savitzky_golay ?d1 3 1 0 1 = Inr s1" and l1: "length s1 = ?n"
    using n by (simp add: savitzky_golay_3_1)
  obtain s2 where s2: "savitzky_golay ?d2 3 1 0 1 = Inr s2" and l2: "length s2 = ?n"
    using n by (simp add: savitzky_golay_3_1)
  let ?df = "build_frame (map generation sim) ?q s1 s2"
  have c: "classify_run sim = Inr (?df, inflection_point_classifaction ?df (1 / 100))"
    unfolding classify_run_def Let_def ys using s1 s2 by (simp add: aprox_derv_central_ok)
  have d1: "?d1 ! j = 2 * a * real j + b" if "0 < j" "Suc j < ?n" for j
    using that derv_at_quadratic_interior [of j ?n a b c] by simp
  have d2: "?d2 ! j = 2 * a" if "2 \<le> j" "j + 2 < ?n" for j
    using that derv_at_quadratic_second [of j ?n a b c] by simp
  have dx: "col_yx_dx (?df ! i) = 2 * a * real i + b" if "2 \<le> i" "i + 2 < ?n" for i
  proof -
    have "s1 ! i = 2 * a * real i + b"
    proof (rule savitzky_golay_3_1_affine_at [OF s1])
      fix j assume "i - 1 \<le> j" "j \<le> Suc i"
      then show "?d1 ! j = 2 * a * real j + b" using that by (intro d1) auto
    qed (use that in simp_all)
    then show ?thesis using that l1 l2 build_frame_nth [of i] by simp
  qed
  have dx2: "col_yx_dx2 (?df ! i) = 2 * a" if "3 \<le> i" "i + 3 < ?n" for i
  proof -
    have "s2 ! i = 0 * real i + 2 * a"
    proof (rule savitzky_golay_3_1_affine_at [OF s2])
      fix j assume "i - 1 \<le> j" "j \<le> Suc i"
      then show "?d2 ! j = 0 * real j + 2 * a" using that d2 [of j] by simp
    qed (use that in simp_all)
    then show ?thesis using that l1 l2 build_frame_nth [of i] by simp
  qed
  show ?thesis using c dx dx2 l1 l2 by auto
qed


lemma savitzky_golay_3_1_first:
  assumes s: "savitzky_golay ys 3 1 0 1 = Inr zs"
  shows "zs ! 0 = (2 * ys ! 1 + ys ! 0) / 3"
proof -
  have l: "3 \<le> length ys" using s by (simp add: savitzky_golay_3_1 split: if_splits)
  then obtain y0 y1 rest where ys: "ys = y0 # y1 # rest"
    by (cases ys; cases "tl ys") auto
  have "zs ! 0 = sum_list (map2 (*) [1 / 3, 1 / 3, 1 / 3] (take 3 (mirror_pad 1 ys)))"
  proof -
    have "0 < length ys" "ys \<noteq> []" using l by (cases ys; simp)+
    then show ?thesis using s l by (auto simp: savitzky_golay_3_1 nth_map split: if_splits)
  qed
  then show ?thesis using ys by (simp add: mirror_pad_def numeral_3_eq_3)
qed

lemma alternating_derv_first:
  assumes "\<forall>i<length ys. ys ! i = (if even i then u else v)" "2 \<le> length ys"
  shows "derv_at ys 1 1 0 = v - u"
proof -
  have "ys \<noteq> []" using assms(2) by (cases ys) auto
  then show ?thesis
    using assms(1) [rule_format, of 0] assms(1) [rule_format, of 1] assms(2) by (simp add: derv_at_def)
qed

lemma alternating_derv_interior:
  assumes "\<forall>i<length ys. ys ! i = (if even i then u else v)" "0 < j" "Suc j < length ys"
  shows "derv_at ys 1 1 j = 0"
proof -
  have "even (Suc j) = even (j - 1)" using assms(2) by (cases j) simp_all
  then show ?thesis
    using assms(1) [rule_format, of "Suc j"] assms(1) [rule_format, of "j - 1"] assms(2,3)
    by (simp add: derv_at_def)
qed

lemma alternating_frame:
  assumes alt: "\<forall>i<length sim. bush_pw_mean (sim ! i) = (if even i then u else v)"
    and n: "6 \<le> length sim"
  shows "\<exists>s1 s2. classify_run sim =
      Inr (build_frame (map generation sim) (map bush_pw_mean sim) s1 s2,
           inflection_point_classifaction (build_frame (map generation sim) (map bush_pw_mean sim) s1 s2) (1 / 100))
    \<and> length s1 = length sim \<and> length s2 = length sim
    \<and> s1 ! 0 = (v - u) / 3 \<and> s1 ! 1 = (v - u) / 3
    \<and> (\<forall>j. 2 \<le> j \<and> j + 2 < length sim \<longrightarrow> s1 ! j = 0) \<and> s2 ! 2 = - (v - u) / 6"
proof -
  let ?n = "length sim"
  let ?ys = "map bush_pw_mean sim"
  let ?d1 = "map (derv_at ?ys 1 1) [0..<?n]"
  let ?d2 = "map (derv_at ?d1 1 1) [0..<?n]"
  have alty: "\<forall>i<length ?ys. ?ys ! i = (if even i then u else v)" using alt by simp
  have n0: "0 < ?n" using n by linarith
  have ne: "sim \<noteq> []" using n0 by auto
  have d0: "?d1 ! 0 = v - u"
    using alternating_derv_first [OF alty] n n0 ne by (simp del: upt_Suc)
  have dj: "?d1 ! j = 0" if "0 < j" "Suc j < ?n" for j
    using alternating_derv_interior [OF alty, of j] that by simp
  have cen: "?d2 ! j = (?d1 ! Suc j - ?d1 ! (j - 1)) / 2" if "1 \<le> j" "Suc j < ?n" for j
    using that derv_at_central [where y="?d1" and b=1 and f=1 and i=j] by simp
  have e1: "?d2 ! 1 = - (v - u) / 2"
    using cen [of 1] n d0 dj [of 2] by simp
  have e2: "?d2 ! 2 = 0" "?d2 ! 3 = 0"
    using n cen [of 2] cen [of 3] dj [of 1] dj [of 3] dj [of 2] dj [of 4] by simp_all
  obtain s1 where s1: "savitzky_golay ?d1 3 1 0 1 = Inr s1" and l1: "length s1 = ?n"
    using n by (simp add: savitzky_golay_3_1)
  obtain s2 where s2: "savitzky_golay ?d2 3 1 0 1 = Inr s2" and l2: "length s2 = ?n"
    using n by (simp add: savitzky_golay_3_1)
  have c: "classify_run sim =
      Inr (build_frame (map generation sim) ?ys s1 s2,
           inflection_point_classifaction (build_frame (map generation sim) ?ys s1 s2) (1 / 100))"
    unfolding classify_run_def Let_def using s1 s2 by (simp add: aprox_derv_central_ok)
  have "s1 ! 0 = (v - u) / 3"
    using savitzky_golay_3_1_first [OF s1] d0 dj [of 1] n by simp
  moreover have "s1 ! 1 = (v - u) / 3"
    using savitzky_golay_3_1_interior [OF s1, of 1] d0 dj [of 1] dj [of 2] n by simp
  moreover have "s1 ! j = 0" if "2 \<le> j" "j + 2 < ?n" for j
  proof -
    have "s1 ! j = 0 * real j + 0"
    proof (rule savitzky_golay_3_1_affine_at [OF s1])
      fix k assume "j - 1 \<le> k" "k \<le> Suc j"
      then show "?d1 ! k = 0 * real k + 0" using that dj [of k] by simp
    qed (use that in simp_all)
    then show ?thesis by simp
  qed
  moreover have "s2 ! 2 = - (v - u) / 6"
    using savitzky_golay_3_1_interior [OF s2, of 2] e1 e2 n by simp
  ultimately show ?thesis using c l1 l2 by blast
qed

lemma length_extremum_values:
  "length cls = length ys \<Longrightarrow>
   length (extremum_values cls ys) = length (filter (\<lambda>c. c \<noteq> PNone) cls)"
  by (induction cls ys rule: list_induct2) (simp_all add: extremum_values_def)

lemma alternating_extrema:
  assumes alt: "\<forall>i<length sim. bush_pw_mean (sim ! i) = (if even i then u else v)"
    and n: "6 \<le> length sim"
  shows "\<exists>df. classify_run sim = Inr (df, inflection_point_classifaction df (1 / 100))
    \<and> length df = length sim
    \<and> filter (\<lambda>c. c \<noteq> PNone) (inflection_point_classifaction df (1 / 100)) =
       (if 3 / 50 < v - u then [PMax] else if 3 / 50 < u - v then [PMin] else [])"
proof -
  obtain s1 s2 where c: "classify_run sim =
      Inr (build_frame (map generation sim) (map bush_pw_mean sim) s1 s2,
           inflection_point_classifaction (build_frame (map generation sim) (map bush_pw_mean sim) s1 s2) (1 / 100))"
    and l: "length s1 = length sim" "length s2 = length sim"
    and s10: "s1 ! 0 = (v - u) / 3" and s11: "s1 ! 1 = (v - u) / 3"
    and s1j: "\<And>j. 2 \<le> j \<Longrightarrow> j + 2 < length sim \<Longrightarrow> s1 ! j = 0"
    and s22: "s2 ! 2 = - (v - u) / 6"
    using alternating_frame [OF alt n] by blast
  define df where "df = build_frame (map generation sim) (map bush_pw_mean sim) s1 s2"
  have ldf: "length df = length sim" using l by (simp add: df_def)
  have ne: "sim \<noteq> []" using n by (cases sim) auto
  have cx: "col_yx_dx (df ! i) = s1 ! i" "col_yx_dx2 (df ! i) = s2 ! i" if "i < length sim" for i
    using that l build_frame_nth [of i] by (simp_all add: df_def)
  have other: "classify_at df (1 / 100) i = PNone" if "i < length sim" "i \<noteq> 2" for i
  proof -
    have "i = 0 \<or> i = 1 \<or> 3 \<le> i" using that(2) by presburger
    then consider "i = 0" | "i = 1" | "3 \<le> i" "length sim \<le> Suc i" | "3 \<le> i" "Suc i < length sim"
      by linarith
    then show ?thesis
    proof cases
      case 2
      then show ?thesis using n ne cx [of 0] cx [of 1] s10 s11 by (simp add: classify_at_def ldf)
    next
      case 4
      then show ?thesis using cx [of "i - 1"] s1j [of "i - 1"] by (simp add: classify_at_def ldf)
    qed (simp_all add: classify_at_def ldf)
  qed
  have at2: "classify_at df (1 / 100) 2 =
      (if 3 / 50 < v - u then PMax else if 3 / 50 < u - v then PMin else PNone)"
    using n ne cx [of 1] cx [of 2] s11 s1j [of 2] s22 by (simp add: classify_at_def ldf)
  have ups: "[0..<length sim] = [0, 1, 2] @ [3..<length sim]"
  proof -
    have "[0..<length sim] = [0..<3] @ [3..<length sim]"
      using upt_add_eq_append [of 0 3 "length sim - 3"] n by (simp del: upt_Suc)
    moreover have "[0..<3] = [0::nat, 1, 2]" by (simp add: numeral_3_eq_3)
    ultimately show ?thesis by (simp del: upt_Suc)
  qed
  have rest: "filter (\<lambda>c. c \<noteq> PNone) (map (classify_at df (1 / 100)) [3..<length sim]) = []"
    using other by (simp add: filter_empty_conv)
  have "filter (\<lambda>c. c \<noteq> PNone) (inflection_point_classifaction df (1 / 100)) =
      (if 3 / 50 < v - u then [PMax] else if 3 / 50 < u - v then [PMin] else [])"
    unfolding inflection_point_classifaction_def ldf ups
    using other [of 0] other [of 1] at2 rest n ne by simp
  then show ?thesis using c ldf unfolding df_def by blast
qed

lemma summarize_frame_few_extrema:
  assumes "length cls = length df" "length (filter (\<lambda>c. c \<noteq> PNone) cls) \<le> 1"
  shows "count_str_flip (summarize_frame self sim df cls) = 0
    \<and> mean_magnitude_of_strategy_flip (summarize_frame self sim df cls) =
       (if filter (\<lambda>c. c \<noteq> PNone) cls = [] then Some 0 else None)"
proof -
  let ?e = "filter (\<lambda>c. c \<noteq> PNone) cls"
  have le: "length (extremum_values cls (map col_y df)) = length ?e"
    using assms(1) by (simp add: length_extremum_values)
  have "?e = [] \<or> (\<exists>c. ?e = [c])"
    using assms(2) by (cases ?e) auto
  then show ?thesis
  proof
    assume e: "?e = []"
    then have "extremum_values cls (map col_y df) = []" using le by simp
    then show ?thesis using e by (simp add: summarize_frame_fields count_min_max_filter count_flips_regimes
        magnitude_stats_def)
  next
    assume "\<exists>c. ?e = [c]"
    then obtain c where e: "?e = [c]" by blast
    then have "length (extremum_values cls (map col_y df)) = 1" using le by simp
    then show ?thesis using e by (simp add: summarize_frame_fields count_min_max_filter count_flips_regimes
        magnitude_stats_nan)
  qed
qed

text \<open>
  C5. A series that alternates between two values \<open>u\<close> and \<open>v\<close> row by row
  (six rows or more) has at most one row labelled min or max, at row 2 (the only
  row where the smoothed derivative changes sign), and exactly when the
  second-derivative threshold is passed, \<open>|v - u| > 0.06\<close>. The run counts
  no flip; the mean magnitude is NaN when that one extremum exists and 0
  otherwise, so the verdict is 0 for a large swing and depends on the signs of
  the sensitivities for a small one.
\<close>

theorem run_alternating_series:
  assumes "\<forall>i<length sim. bush_pw_mean (sim ! i) = (if even i then u else v)"
    and "6 \<le> length sim"
  shows "\<exists>r. run_classifacation_algorithm self sim = Inr r \<and> count_str_flip r = 0
    \<and> mean_magnitude_of_strategy_flip r = (if 3 / 50 < \<bar>v - u\<bar> then None else Some 0)
    \<and> nash_val r = (if 3 / 50 < \<bar>v - u\<bar> then 0
        else if 0 \<le> nash_inf_count_sensitivity self \<and> 0 \<le> nash_inf_mag_sensitivity self then 1 else 0)"
proof -
  obtain df where c: "classify_run sim = Inr (df, inflection_point_classifaction df (1 / 100))"
    and l: "length df = length sim"
    and e: "filter (\<lambda>c. c \<noteq> PNone) (inflection_point_classifaction df (1 / 100)) =
       (if 3 / 50 < v - u then [PMax] else if 3 / 50 < u - v then [PMin] else [])"
    using alternating_extrema [OF assms] by blast
  let ?cls = "inflection_point_classifaction df (1 / 100)"
  let ?r = "summarize_frame self sim df ?cls"
  have few: "count_str_flip ?r = 0 \<and> mean_magnitude_of_strategy_flip ?r =
       (if filter (\<lambda>c. c \<noteq> PNone) ?cls = [] then Some 0 else None)"
    by (rule summarize_frame_few_extrema) (simp_all add: e)
  have run: "run_classifacation_algorithm self sim = Inr ?r"
    using c by (simp add: run_classifacation_algorithm_def)
  have m: "mean_magnitude_of_strategy_flip ?r = (if 3 / 50 < \<bar>v - u\<bar> then None else Some 0)"
    using few e by (auto split: if_splits abs_split)
  have "nash_val ?r = (if 3 / 50 < \<bar>v - u\<bar> then 0
        else if 0 \<le> nash_inf_count_sensitivity self \<and> 0 \<le> nash_inf_mag_sensitivity self then 1 else 0)"
    using few m by (simp add: summarize_frame_fields nash_def split: if_splits)
  then show ?thesis using run few m by blast
qed

lemma remdups_le_one_iff: "length (remdups xs) \<le> 1 \<longleftrightarrow> (\<forall>a\<in>set xs. \<forall>b\<in>set xs. a = b)"
  by (simp add: length_remdups_card_conv card_le_Suc0_iff_eq)

lemma np_diff_all_zero: "(\<forall>d\<in>set (np_diff xs). d = 0) \<longleftrightarrow> length (remdups xs) \<le> 1"
  unfolding remdups_le_one_iff by (induction xs rule: induct_list012) auto

lemma sum_list_abs_eq_0: "sum_list (map abs xs) = (0::real) \<longleftrightarrow> (\<forall>x\<in>set xs. x = 0)"
  by (subst sum_list_nonneg_eq_0_iff) auto

lemma magnitude_stats_zero:
  "fst (magnitude_stats cls ys) = Some 0 \<longleftrightarrow>
   length (extremum_values cls ys) \<noteq> 1 \<and> length (remdups (extremum_values cls ys)) \<le> 1"
proof (cases "length (extremum_values cls ys) \<le> 1")
  case True
  then show ?thesis
    by (cases "extremum_values cls ys") (auto simp: magnitude_stats_def Let_def)
next
  case False
  let ?m = "map abs (np_diff (extremum_values cls ys))"
  have "length ?m \<noteq> 0" using False by simp
  then have ne: "?m \<noteq> []" by blast
  have "extremum_values cls ys \<noteq> []" using False by auto
  then have "fst (magnitude_stats cls ys) = Some (list_mean ?m)"
    using ne by (simp add: magnitude_stats_def Let_def nan_mean_def)
  moreover have "list_mean ?m = 0 \<longleftrightarrow> (\<forall>d\<in>set ?m. d = 0)"
    using ne False by (simp add: list_mean_def sum_list_abs_eq_0)
  ultimately show ?thesis using False np_diff_all_zero [of "extremum_values cls ys"] by auto
qed

text \<open>
  C19. The mean flip magnitude is 0 exactly when the rows labelled min or max
  are not a single row and all have the same value of \<open>bush_pw_mean\<close>. It is
  taken over successive extremum rows whatever their labels, so two maxima
  of different height (no flip counted) give a non-zero magnitude.
\<close>

theorem run_mean_magnitude_zero:
  "run_classifacation_algorithm self sim = Inr r \<Longrightarrow>
   \<exists>df cls. classify_run sim = Inr (df, cls) \<and>
     (mean_magnitude_of_strategy_flip r = Some 0 \<longleftrightarrow>
      length (extremum_values cls (map bush_pw_mean sim)) \<noteq> 1 \<and>
      length (remdups (extremum_values cls (map bush_pw_mean sim))) \<le> 1)"
  by (fastforce dest!: run_classifacation_algorithm_Inr simp: summarize_frame_fields magnitude_stats_zero)

end
