(* ===== verification/Orchestrator.thy ===== *)
theory Orchestrator
  imports Summary
begin

text \<open>
  The run orchestrator, class \<open>Experiment_Per_Cycle_Analysis\<close> of
  \<open>src/oscillator_classification/multi_sim_analysis.py\<close>: the constructor
  (lines 11--29), \<open>create_csv\<close> and \<open>append_data\<close> (31--40), the generation-boundary
  filter \<open>by_gen_filter\<close> and \<open>per_gen_data_format\<close> (42--60) and the driver
  \<open>loop_through_sims\<close> (111--115). Reading the two input CSV files is I/O and is
  not modelled: the constructor takes their parsed rows. The output file system
  is a map from a path to the rows of the CSV file there (\<open>None\<close>: no such file);
  writing a row appends it, creating the file if it is missing, as opening in
  mode \<open>'a'\<close> does.
\<close>

section \<open>The output file\<close>

datatype csv_line = HeaderLine "string list" | DataLine summary_row

type_synonym file_system = "string \<Rightarrow> csv_line list option"

definition csv_header :: "string list" where
  "csv_header =
     [''exp_name'', ''sim_id'', ''exp'', ''org'', ''count_str_flip'',
      ''mean_strategy_flip_time'', ''std_strategy_flip_time'', ''var_strategy_flip_time'',
      ''mean_magnitude_of_strategy_flip'', ''std_magnitude_of_strategy_flip'',
      ''var_magnitude_of_strategy_flip'', ''nash_val'']"

definition file_rows :: "file_system \<Rightarrow> string \<Rightarrow> csv_line list" where
  "file_rows fs fp = (case fs fp of None \<Rightarrow> [] | Some ls \<Rightarrow> ls)"

definition append_data :: "file_system \<Rightarrow> string \<Rightarrow> csv_line \<Rightarrow> file_system" where
  "append_data fs fp d_row = fs(fp \<mapsto> file_rows fs fp @ [d_row])"

definition create_csv :: "file_system \<Rightarrow> string \<Rightarrow> string list option \<Rightarrow> file_system" where
  "create_csv fs fp header =
     (let fs' = fs(fp \<mapsto> [])
      in case header of None \<Rightarrow> fs' | Some h \<Rightarrow> append_data fs' fp (HeaderLine h))"

section \<open>Generation boundaries\<close>

text \<open>
  \<open>row['cycle'] % freq == 0\<close> with \<open>freq\<close> the numpy integer returned by \<open>max()\<close>:
  numpy's remainder by zero is 0 (with a warning), and a NaN frequency (an empty
  parameter column) makes the comparison false.
\<close>

definition np_mod :: "int \<Rightarrow> int \<Rightarrow> int" where
  "np_mod a b = (if b = 0 then 0 else a mod b)"

fun at_boundary :: "int option \<Rightarrow> int \<Rightarrow> bool" where
  "at_boundary None c = False"
| "at_boundary (Some f) c = (np_mod c f = 0)"

definition by_gen_row :: "int option \<Rightarrow> int option \<Rightarrow> cycle_row \<Rightarrow> int" where
  "by_gen_row krat_freq snake_freq row =
     (if org row = ''krat'' \<and> at_boundary krat_freq (cycle row) then 1
      else if org row = ''snake'' \<and> at_boundary snake_freq (cycle row) then 1
      else 0)"

definition by_gen_filter :: "per_cycle_analysis \<Rightarrow> int option \<Rightarrow> int option \<Rightarrow> int list" where
  "by_gen_filter self kf sf = map (by_gen_row kf sf) (per_cycle self)"

definition per_gen_data_format :: "per_cycle_analysis \<Rightarrow> per_cycle_analysis" where
  "per_gen_data_format self =
     (let kf = col_max (map krat_reproduction_freq_per_x_cycles (parameters self));
          sf = col_max (map snake_reproduction_freq_per_x_cycles (parameters self));
          col = by_gen_filter self kf sf
      in self\<lparr>krat_reproduction_freq := kf, snake_reproduction_freq := sf,
              by_gen_filter_col := col,
              by_gen_data := map fst (filter (\<lambda>(r, v). v = 1) (zip (per_cycle self) col))\<rparr>)"

section \<open>The constructor\<close>

definition experiment_init ::
  "string \<Rightarrow> cycle_row list \<Rightarrow> param_row list \<Rightarrow> string \<Rightarrow> int \<Rightarrow> real \<Rightarrow> file_system
   \<Rightarrow> per_cycle_analysis \<times> file_system" where
  "experiment_init name per_cycle_rows parameter_rows out count_sens mag_sens fs =
     (let self = per_gen_data_format
                   \<lparr>exp_name = name, per_cycle = per_cycle_rows, parameters = parameter_rows,
                    output_file_csv = out, nash_inf_count_sensitivity = count_sens,
                    nash_inf_mag_sensitivity = mag_sens, krat_reproduction_freq = None,
                    snake_reproduction_freq = None, by_gen_filter_col = [], by_gen_data = []\<rparr>
      in (self, if fs out \<noteq> None then fs else create_csv fs out (Some csv_header)))"

section \<open>The driver\<close>

text \<open>
  \<open>groupby(['sim_id', 'org'])\<close>: one group per key present, keys in ascending
  order, each group's rows in their order in the table.
\<close>

definition group_keys :: "cycle_row list \<Rightarrow> (int \<times> string) list" where
  "group_keys rows = sort (remdups (map (\<lambda>r. (sim_id r, org r)) rows))"

definition sim_groupings :: "cycle_row list \<Rightarrow> ((int \<times> string) \<times> cycle_row list) list" where
  "sim_groupings rows = map (\<lambda>k. (k, filter (\<lambda>r. (sim_id r, org r) = k) rows)) (group_keys rows)"

text \<open>The loop: an exception of \<open>run_classifacation_algorithm\<close> ends the run.\<close>

fun loop_groups ::
  "per_cycle_analysis \<Rightarrow> ((int \<times> string) \<times> cycle_row list) list \<Rightarrow> file_system
   \<Rightarrow> unit result \<times> file_system" where
  "loop_groups self [] fs = (Inr (), fs)"
| "loop_groups self ((name, sim) # gs) fs =
     (case run_classifacation_algorithm self sim of
        Inl e \<Rightarrow> (Inl e, fs)
      | Inr data \<Rightarrow> loop_groups self gs (append_data fs (output_file_csv self) (DataLine data)))"

definition loop_through_sims :: "per_cycle_analysis \<Rightarrow> file_system \<Rightarrow> unit result \<times> file_system" where
  "loop_through_sims self fs = loop_groups self (sim_groupings (by_gen_data self)) fs"

section \<open>Abstract specification of the driver\<close>

text \<open>
  What the loop computes: the summary rows of the longest prefix of groups whose
  classification succeeds, and the error of the first group that fails.
\<close>

fun run_all :: "per_cycle_analysis \<Rightarrow> ((int \<times> string) \<times> cycle_row list) list \<Rightarrow> summary_row list \<times> py_error option" where
  "run_all self [] = ([], None)"
| "run_all self ((name, sim) # gs) =
     (case run_classifacation_algorithm self sim of
        Inl e \<Rightarrow> ([], Some e)
      | Inr d \<Rightarrow> (d # fst (run_all self gs), snd (run_all self gs)))"

section \<open>Properties\<close>

lemma filter_zip_map:
  "map fst (filter (\<lambda>(r, v). v = 1) (zip rows (map g rows))) = filter (\<lambda>r. g r = 1) rows"
  by (induction rows) auto

lemma by_gen_row_eq_1:
  "by_gen_row kf sf r = 1 \<longleftrightarrow>
     (org r = ''krat'' \<and> at_boundary kf (cycle r)) \<or> (org r = ''snake'' \<and> at_boundary sf (cycle r))"
  by (auto simp: by_gen_row_def)

lemma by_gen_data_filter:
  "by_gen_data (per_gen_data_format self) =
     filter (\<lambda>r. (org r = ''krat'' \<and>
                   at_boundary (col_max (map krat_reproduction_freq_per_x_cycles (parameters self))) (cycle r))
               \<or> (org r = ''snake'' \<and>
                   at_boundary (col_max (map snake_reproduction_freq_per_x_cycles (parameters self))) (cycle r)))
       (per_cycle self)"
  by (simp add: per_gen_data_format_def by_gen_filter_def filter_zip_map by_gen_row_eq_1 Let_def)

lemma at_boundary_pos: "0 < f \<Longrightarrow> at_boundary (Some f) c \<longleftrightarrow> f dvd c"
  by (simp add: np_mod_def dvd_eq_mod_eq_0)

lemma at_boundary_zero: "at_boundary (Some 0) c"
  by (simp add: np_mod_def)

lemma at_boundary_iff: "at_boundary fo c \<longleftrightarrow> (\<exists>f. fo = Some f \<and> (f = 0 \<or> f dvd c))"
  by (cases fo) (auto simp: np_mod_def dvd_eq_mod_eq_0)

lemma mset_concat_map: "mset (concat (map f ks)) = sum_list (map (\<lambda>k. mset (f k)) ks)"
  by (induction ks) simp_all

lemma sum_filter_mset_keys:
  "finite K \<Longrightarrow> key ` set_mset M \<subseteq> K \<Longrightarrow> (\<Sum>k\<in>K. filter_mset (\<lambda>r. key r = k) M) = M"
proof (induction M)
  case empty
  then show ?case by simp
next
  case (add x M)
  have "(\<Sum>k\<in>K. filter_mset (\<lambda>r. key r = k) (add_mset x M)) =
        (\<Sum>k\<in>K. (if key x = k then {#x#} else {#}) + filter_mset (\<lambda>r. key r = k) M)"
    by (rule sum.cong) auto
  also have "\<dots> = {#x#} + M"
    using add by (simp add: sum.distrib sum.delta)
  finally show ?case by simp
qed

text \<open>
  C10. The groups of the driver are those of \<open>groupby(['sim_id', 'org'])\<close>: the
  keys are the distinct (sim_id, org) pairs of the rows, in ascending order; each
  group is the rows of its key in table order (so a series keeps its generation
  order); and the groups together are a permutation of the rows.
\<close>

theorem sim_groupings_partition:
  "mset (concat (map snd (sim_groupings rows))) = mset rows \<and>
   sorted (map fst (sim_groupings rows)) \<and> distinct (map fst (sim_groupings rows)) \<and>
   set (map fst (sim_groupings rows)) = (\<lambda>r. (sim_id r, org r)) ` set rows \<and>
   (\<forall>(k, g)\<in>set (sim_groupings rows). g \<noteq> [] \<and> g = filter (\<lambda>r. (sim_id r, org r) = k) rows)"
proof -
  let ?key = "\<lambda>r. (sim_id r, org r)"
  have keys: "map fst (sim_groupings rows) = group_keys rows"
    by (simp add: sim_groupings_def comp_def)
  have dk: "distinct (group_keys rows)" by (simp add: group_keys_def)
  have sk: "set (group_keys rows) = ?key ` set rows" by (simp add: group_keys_def)
  have "mset (concat (map snd (sim_groupings rows))) =
        sum_list (map (\<lambda>k. mset (filter (\<lambda>r. ?key r = k) rows)) (group_keys rows))"
    by (simp add: sim_groupings_def comp_def mset_concat_map)
  also have "\<dots> = (\<Sum>k\<in>set (group_keys rows). mset (filter (\<lambda>r. ?key r = k) rows))"
    using dk by (simp add: sum_list_distinct_conv_sum_set)
  also have "\<dots> = mset rows"
    using sk by (simp add: sum_filter_mset_keys)
  finally have m: "mset (concat (map snd (sim_groupings rows))) = mset rows" .
  have g: "\<forall>(k, g)\<in>set (sim_groupings rows). g \<noteq> [] \<and> g = filter (\<lambda>r. ?key r = k) rows"
    using sk by (auto simp: sim_groupings_def filter_empty_conv)
  show ?thesis using m g keys dk sk by (simp add: group_keys_def)
qed


text \<open>
  C14. The constructor writes the header exactly when the output file does not
  exist, touches no other file, and a second construction leaves the file unchanged.
\<close>

theorem experiment_init_header_once:
  "experiment_init name pc ps out cs ms fs = (self, fs') \<Longrightarrow>
   fs' out = Some (case fs out of None \<Rightarrow> [HeaderLine csv_header] | Some ls \<Rightarrow> ls) \<and>
   (\<forall>p. p \<noteq> out \<longrightarrow> fs' p = fs p) \<and>
   snd (experiment_init name pc ps out cs ms fs') = fs'"
  by (auto simp: experiment_init_def create_csv_def append_data_def file_rows_def Let_def
      split: option.splits)

lemma file_rows_append_data [simp]:
  "file_rows (append_data fs fp d) fp = file_rows fs fp @ [d]"
  by (simp add: append_data_def file_rows_def)

lemma append_data_other [simp]: "p \<noteq> fp \<Longrightarrow> append_data fs fp d p = fs p"
  by (simp add: append_data_def)

lemma loop_groups_run_all:
  "loop_groups self gs fs = (res, fs') \<Longrightarrow>
   res = (case snd (run_all self gs) of None \<Rightarrow> Inr () | Some e \<Rightarrow> Inl e) \<and>
   file_rows fs' (output_file_csv self) =
     file_rows fs (output_file_csv self) @ map DataLine (fst (run_all self gs)) \<and>
   (\<forall>p. p \<noteq> output_file_csv self \<longrightarrow> fs' p = fs p)"
proof (induction self gs fs arbitrary: res fs' rule: loop_groups.induct)
  case (1 self fs)
  then show ?case by simp
next
  case (2 self name sim gs fs)
  show ?case
  proof (cases "run_classifacation_algorithm self sim")
    case (Inl e)
    with "2.prems" show ?thesis by simp
  next
    case (Inr d)
    with "2.prems" "2.IH" [OF Inr] show ?thesis by auto
  qed
qed


lemma run_all_complete:
  "snd (run_all self gs) = None \<Longrightarrow> length (fst (run_all self gs)) = length gs"
  by (induction self gs rule: run_all.induct) (auto split: sum.splits)

text \<open>
  C13. Running the driver twice appends the same rows twice, one per group each time:
  the output is not idempotent.
\<close>

theorem loop_through_sims_duplicates:
  assumes first: "loop_through_sims self fs = (Inr (), fs1)"
    and second: "loop_through_sims self fs1 = (res2, fs2)"
  shows "res2 = Inr () \<and>
    (\<exists>rows. length rows = length (sim_groupings (by_gen_data self)) \<and>
       file_rows fs1 (output_file_csv self) = file_rows fs (output_file_csv self) @ rows \<and>
       file_rows fs2 (output_file_csv self) = file_rows fs (output_file_csv self) @ rows @ rows)"
proof -
  let ?gs = "sim_groupings (by_gen_data self)"
  have r1: "(case snd (run_all self ?gs) of None \<Rightarrow> Inr () | Some e \<Rightarrow> Inl e) = (Inr () :: unit result)"
    and f1: "file_rows fs1 (output_file_csv self) =
               file_rows fs (output_file_csv self) @ map DataLine (fst (run_all self ?gs))"
    using loop_groups_run_all [of self ?gs fs "Inr ()" fs1] first by (simp_all add: loop_through_sims_def)
  have "snd (run_all self ?gs) = None" using r1 by (simp split: option.splits)
  moreover have "res2 = (case snd (run_all self ?gs) of None \<Rightarrow> Inr () | Some e \<Rightarrow> Inl e)"
    and f2: "file_rows fs2 (output_file_csv self) =
               file_rows fs1 (output_file_csv self) @ map DataLine (fst (run_all self ?gs))"
    using loop_groups_run_all [of self ?gs fs1 res2 fs2] second by (simp_all add: loop_through_sims_def)
  ultimately show ?thesis using f1 f2 run_all_complete [of self ?gs]
    by (intro conjI exI [of _ "map DataLine (fst (run_all self ?gs))"]) simp_all
qed

lemma run_all_abort:
  "i < length gs \<Longrightarrow> length (snd (gs ! i)) < 3 \<Longrightarrow> \<forall>j<i. 3 \<le> length (snd (gs ! j)) \<Longrightarrow>
   snd (run_all self gs) = Some InvalidWindowError \<and> length (fst (run_all self gs)) = i"
proof (induction gs arbitrary: i)
  case Nil
  then show ?case by simp
next
  case (Cons g gs)
  obtain name sim where g: "g = (name, sim)" by fastforce
  show ?case
  proof (cases i)
    case 0
    with Cons.prems g have "run_classifacation_algorithm self sim = Inl InvalidWindowError"
      using run_classifacation_algorithm_short_iff by simp
    with g 0 show ?thesis by simp
  next
    case (Suc k)
    with Cons.prems g have "3 \<le> length sim" by auto
    then obtain d where "run_classifacation_algorithm self sim = Inr d"
      using run_classifacation_algorithm_short_iff by blast
    moreover have "snd (run_all self gs) = Some InvalidWindowError \<and> length (fst (run_all self gs)) = k"
      using Cons.prems Suc by (intro Cons.IH) auto
    ultimately show ?thesis using g Suc by simp
  qed
qed

text \<open>
  C12. A group shorter than 3 rows aborts the whole run with InvalidWindowError
  after the rows of the groups before it were appended, where the spec says a
  per-series error skips only that series.
\<close>

theorem loop_groups_abort_short:
  assumes "i < length gs" "length (snd (gs ! i)) < 3" "\<forall>j<i. 3 \<le> length (snd (gs ! j))"
    and "loop_groups self gs fs = (res, fs')"
  shows "res = Inl InvalidWindowError \<and>
    length (file_rows fs' (output_file_csv self)) = length (file_rows fs (output_file_csv self)) + i"
  using run_all_abort [OF assms(1-3), of self] loop_groups_run_all [OF assms(4)] by simp


text \<open>
  C9. The rows kept by the constructor are the per-cycle rows, in table order, of
  organism krat whose cycle is a multiple of the largest krat reproduction frequency,
  and of organism snake likewise; a largest frequency of 0 keeps every row of its
  organism (numpy's remainder by zero is 0), an empty parameter table none.
\<close>

theorem per_gen_data_format_boundary:
  "by_gen_data (per_gen_data_format self) =
     filter (\<lambda>r. (org r = ''krat'' \<and>
                   (\<exists>f. col_max (map krat_reproduction_freq_per_x_cycles (parameters self)) = Some f
                        \<and> (f = 0 \<or> f dvd cycle r)))
               \<or> (org r = ''snake'' \<and>
                   (\<exists>f. col_max (map snake_reproduction_freq_per_x_cycles (parameters self)) = Some f
                        \<and> (f = 0 \<or> f dvd cycle r))))
       (per_cycle self)"
  unfolding by_gen_data_filter at_boundary_iff ..

text \<open>
  C11. The driver appends to the output file the summary rows of the longest prefix
  of groups whose classification succeeds, in group order, touches no other file, and
  reports the error of the first group that fails.
\<close>

theorem loop_groups_refines:
  "loop_groups self gs fs = (res, fs') \<Longrightarrow>
   res = (case snd (run_all self gs) of None \<Rightarrow> Inr () | Some e \<Rightarrow> Inl e) \<and>
   file_rows fs' (output_file_csv self) =
     file_rows fs (output_file_csv self) @ map DataLine (fst (run_all self gs)) \<and>
   (\<forall>p. p \<noteq> output_file_csv self \<longrightarrow> fs' p = fs p)"
  by (rule loop_groups_run_all)

text \<open>
  C15. A largest krat reproduction frequency of 0 makes every krat row a
  generation boundary (numpy's remainder by zero is 0), where the spec requires
  positive frequencies.
\<close>

theorem zero_frequency_all_boundaries:
  "col_max (map krat_reproduction_freq_per_x_cycles (parameters self)) = Some 0 \<Longrightarrow>
   filter (\<lambda>r. org r = ''krat'') (by_gen_data (per_gen_data_format self)) =
   filter (\<lambda>r. org r = ''krat'') (per_cycle self)"
proof -
  assume z: "col_max (map krat_reproduction_freq_per_x_cycles (parameters self)) = Some 0"
  show ?thesis
    unfolding by_gen_data_filter filter_filter z by (rule filter_cong) (auto simp: np_mod_def)
qed

lemma run_all_success:
  "\<forall>g\<in>set gs. 3 \<le> length (snd g) \<Longrightarrow>
   snd (run_all self gs) = None \<and>
   list_all2 (\<lambda>g r. run_classifacation_algorithm self (snd g) = Inr r) gs (fst (run_all self gs))"
proof (induction self gs rule: run_all.induct)
  case (1 self)
  then show ?case by simp
next
  case (2 self name sim gs)
  then obtain r where "run_classifacation_algorithm self sim = Inr r"
    using run_classifacation_algorithm_short_iff [of self sim] by auto
  with 2 show ?case by simp
qed

lemma experiment_init_output:
  "experiment_init name pc ps out cs ms fs = (self, fs') \<Longrightarrow>
   output_file_csv self = out \<and>
   fs' out = Some (case fs out of None \<Rightarrow> [HeaderLine csv_header] | Some ls \<Rightarrow> ls) \<and>
   file_rows fs' out = (case fs out of None \<Rightarrow> [HeaderLine csv_header] | Some ls \<Rightarrow> ls) \<and>
   (\<forall>p. p \<noteq> out \<longrightarrow> fs' p = fs p)"
  by (cases "fs out")
    (auto simp: experiment_init_def per_gen_data_format_def create_csv_def append_data_def
      file_rows_def Let_def)

lemma file_rows_Some: "fs p \<noteq> None \<Longrightarrow> fs p = Some (file_rows fs p)"
  by (auto simp: file_rows_def)

lemma file_rows_upd [simp]: "file_rows (fs(p \<mapsto> ls)) p = ls"
  by (simp add: file_rows_def)

lemma loop_groups_files:
  "loop_groups self gs fs = (res, fs') \<Longrightarrow>
   fs' = (if fst (run_all self gs) = [] then fs
          else fs(output_file_csv self \<mapsto>
                  file_rows fs (output_file_csv self) @ map DataLine (fst (run_all self gs))))"
proof (induction self gs fs arbitrary: res fs' rule: loop_groups.induct)
  case (1 self fs)
  then show ?case by simp
next
  case (2 self name sim gs fs)
  show ?case
  proof (cases "run_classifacation_algorithm self sim")
    case (Inl e)
    then show ?thesis using "2.prems" by simp
  next
    case (Inr d)
    then have "loop_groups self gs (append_data fs (output_file_csv self) (DataLine d)) = (res, fs')"
      using "2.prems" by simp
    note ih = "2.IH" [OF Inr this]
    let ?out = "output_file_csv self"
    have fs1: "append_data fs ?out (DataLine d) = fs(?out \<mapsto> file_rows fs ?out @ [DataLine d])"
      by (simp add: append_data_def)
    have ra: "fst (run_all self ((name, sim) # gs)) = d # fst (run_all self gs)"
      using Inr by simp
    show ?thesis
      using ih unfolding fs1 ra by (cases "fst (run_all self gs) = []") simp_all

  qed
qed

end
