(* ===== verification/Session.thy ===== *)
theory Session
  imports Orchestrator
begin

text \<open>
  How the class is used: a caller constructs analysis objects and runs their driver,
  in any order. A session is the list of objects constructed so far and the file
  system they write to; an event constructs one more object
  (\<open>Experiment_Per_Cycle_Analysis.__init__\<close>, lines 11--29) or runs
  \<open>loop_through_sims\<close> (lines 111--115) on one of them. A run that raises leaves the
  rows it appended before the exception, and the session goes on with them.
\<close>

datatype session_event =
    Construct string "cycle_row list" "param_row list" string int real
  | Run nat

record session =
  objects :: "per_cycle_analysis list"
  files :: file_system

definition session_init :: session where
  "session_init = \<lparr>objects = [], files = Map.empty\<rparr>"

fun session_step :: "session \<Rightarrow> session_event \<Rightarrow> session" where
  "session_step s (Construct name pc ps out cs ms) =
     (case experiment_init name pc ps out cs ms (files s) of
        (self, fs') \<Rightarrow> \<lparr>objects = objects s @ [self], files = fs'\<rparr>)"
| "session_step s (Run i) =
     (if i < length (objects s)
      then s\<lparr>files := snd (loop_through_sims (objects s ! i) (files s))\<rparr>
      else s)"

fun session_run :: "session \<Rightarrow> session_event list \<Rightarrow> session" where
  "session_run s [] = s"
| "session_run s (e # es) = session_run (session_step s e) es"

inductive session_reach :: "session \<Rightarrow> bool" where
  init: "session_reach session_init"
| step: "session_reach s \<Longrightarrow> session_reach (session_step s e)"

text \<open>
  The output invariant: every existing file is the output file of a constructed
  object, and every output file holds one header line followed by data rows only.
\<close>

definition output_well_formed :: "session \<Rightarrow> bool" where
  "output_well_formed s \<longleftrightarrow>
     (\<forall>p. files s p \<noteq> None \<longrightarrow> (\<exists>self\<in>set (objects s). output_file_csv self = p)) \<and>
     (\<forall>self\<in>set (objects s).
        \<exists>rows. files s (output_file_csv self) = Some (HeaderLine csv_header # map DataLine rows))"

text \<open>
  The rows a run of the driver appends: they depend on the object only, never on
  the files; appending them creates the file only when there is a row to write.
\<close>

definition run_rows :: "per_cycle_analysis \<Rightarrow> csv_line list" where
  "run_rows self = map DataLine (fst (run_all self (sim_groupings (by_gen_data self))))"

definition append_rows :: "file_system \<Rightarrow> string \<Rightarrow> csv_line list \<Rightarrow> file_system" where
  "append_rows fs p rs = (if rs = [] then fs else fs(p \<mapsto> file_rows fs p @ rs))"

section \<open>Properties\<close>

lemma session_run_reach: "session_reach s \<Longrightarrow> session_reach (session_run s es)"
  by (induction s es rule: session_run.induct) (auto intro: session_reach.step)

lemma session_reach_run: "session_reach s \<Longrightarrow> \<exists>es. s = session_run session_init es"
proof (induction rule: session_reach.induct)
  case init
  then show ?case by (auto intro: exI [of _ "[]"])
next
  case (step s e)
  then obtain es where "s = session_run session_init es" by blast
  moreover have "session_run s' (es @ [e]) = session_step (session_run s' es) e" for s'
    by (induction s' es rule: session_run.induct) simp_all
  ultimately show ?case by metis
qed

lemma session_reach_iff_run: "session_reach s \<longleftrightarrow> (\<exists>es. s = session_run session_init es)"
  using session_reach_run session_run_reach [OF session_reach.init] by blast

lemma output_well_formed_init: "output_well_formed session_init"
  by (simp add: output_well_formed_def session_init_def)

lemma output_well_formed_construct:
  assumes wf: "output_well_formed s"
  shows "output_well_formed (session_step s (Construct name pc ps out cs ms))"
proof -
  obtain self fs' where init: "experiment_init name pc ps out cs ms (files s) = (self, fs')"
    by (meson surj_pair)
  note e = experiment_init_output [OF init]
  have hdr: "\<exists>rows. fs' out = Some (HeaderLine csv_header # map DataLine rows)"
  proof (cases "files s out")
    case None
    then show ?thesis using e by (auto intro: exI [of _ "[]"])
  next
    case (Some ls)
    then obtain self0 where "self0 \<in> set (objects s)" "output_file_csv self0 = out"
      using wf by (auto simp: output_well_formed_def)
    then obtain rows where "files s out = Some (HeaderLine csv_header # map DataLine rows)"
      using wf by (auto simp: output_well_formed_def)
    then show ?thesis using e Some by auto
  qed
  have st: "objects (session_step s (Construct name pc ps out cs ms)) = objects s @ [self]"
    "files (session_step s (Construct name pc ps out cs ms)) = fs'"
    using init by simp_all
  have o: "output_file_csv self = out" and other: "\<forall>p. p \<noteq> out \<longrightarrow> fs' p = files s p"
    using e by simp_all
  show ?thesis
    unfolding output_well_formed_def st
  proof (intro conjI allI impI ballI)
    fix p assume "fs' p \<noteq> None"
    then show "\<exists>self\<in>set (objects s @ [self]). output_file_csv self = p"
      using wf other o by (cases "p = out") (auto simp: output_well_formed_def)
  next
    fix self' assume self': "self' \<in> set (objects s @ [self])"
    show "\<exists>rows. fs' (output_file_csv self') = Some (HeaderLine csv_header # map DataLine rows)"
    proof (cases "output_file_csv self' = out")
      case True
      then show ?thesis using hdr by simp
    next
      case False
      then have "self' \<in> set (objects s)" using self' o by auto
      then show ?thesis using False other wf by (auto simp: output_well_formed_def)
    qed
  qed
qed

lemma output_well_formed_run:
  assumes wf: "output_well_formed s"
  shows "output_well_formed (session_step s (Run i))"
proof (cases "i < length (objects s)")
  case False
  then show ?thesis using wf by simp
next
  case True
  let ?self = "objects s ! i"
  let ?out = "output_file_csv ?self"
  obtain res fs' where run: "loop_through_sims ?self (files s) = (res, fs')"
    by (meson surj_pair)
  have lg: "loop_groups ?self (sim_groupings (by_gen_data ?self)) (files s) = (res, fs')"
    using run by (simp add: loop_through_sims_def)
  note r = loop_groups_run_all [OF lg]
  have mem: "?self \<in> set (objects s)" using True by simp
  then obtain rows where old: "files s ?out = Some (HeaderLine csv_header # map DataLine rows)"
    using wf by (auto simp: output_well_formed_def)
  then have new: "file_rows fs' ?out = HeaderLine csv_header # map DataLine (rows @ fst (run_all ?self (sim_groupings (by_gen_data ?self))))"
    using r by (simp add: file_rows_def)
  then have "fs' ?out \<noteq> None" by (cases "fs' ?out") (simp_all add: file_rows_def)
  then have newS: "fs' ?out = Some (HeaderLine csv_header # map DataLine (rows @ fst (run_all ?self (sim_groupings (by_gen_data ?self)))))"
    using new file_rows_Some by metis
  have other: "\<forall>p. p \<noteq> ?out \<longrightarrow> fs' p = files s p" using r by blast
  show ?thesis
    unfolding output_well_formed_def
  proof (intro conjI allI impI ballI)
    fix p assume "files (session_step s (Run i)) p \<noteq> None"
    then have "fs' p \<noteq> None" using True run by simp
    then show "\<exists>self\<in>set (objects (session_step s (Run i))). output_file_csv self = p"
      using wf other mem True by (cases "p = ?out") (auto simp: output_well_formed_def)
  next
    fix self assume "self \<in> set (objects (session_step s (Run i)))"
    then have self: "self \<in> set (objects s)" using True by simp
    show "\<exists>rows. files (session_step s (Run i)) (output_file_csv self) =
        Some (HeaderLine csv_header # map DataLine rows)"
    proof (cases "output_file_csv self = ?out")
      case True
      then have "files (session_step s (Run i)) (output_file_csv self) = Some (HeaderLine csv_header #
          map DataLine (rows @ fst (run_all ?self (sim_groupings (by_gen_data ?self)))))"
        using newS run \<open>i < length (objects s)\<close> by simp
      then show ?thesis by blast
    next
      case False
      then show ?thesis using other self wf run \<open>i < length (objects s)\<close>
        by (auto simp: output_well_formed_def)
    qed
  qed
qed

lemma output_well_formed_step: "output_well_formed s \<Longrightarrow> output_well_formed (session_step s e)"
  by (cases e) (simp_all only: output_well_formed_construct output_well_formed_run)

text \<open>
  C21. In every session reachable from an empty file system, by any interleaving of
  constructions and driver runs (failed runs included), every output file holds
  exactly one header line, first, followed by summary rows only, and no file other
  than an object's output file exists.
\<close>

theorem session_output_well_formed:
  "session_reach s \<Longrightarrow> output_well_formed s"
  by (induction rule: session_reach.induct) (simp_all add: output_well_formed_init output_well_formed_step)

lemma file_rows_append_rows:
  "file_rows (append_rows fs p rs) q = (if q = p then file_rows fs p @ rs else file_rows fs q)"
  by (simp add: append_rows_def file_rows_def)

lemma append_rows_commute:
  "p \<noteq> q \<Longrightarrow> append_rows (append_rows fs p r1) q r2 = append_rows (append_rows fs q r2) p r1"
  by (auto simp: append_rows_def file_rows_def fun_upd_twist)

lemma session_step_Run:
  "i < length (objects s) \<Longrightarrow>
   session_step s (Run i) =
     s\<lparr>files := append_rows (files s) (output_file_csv (objects s ! i)) (run_rows (objects s ! i))\<rparr>"
  using loop_groups_files [of "objects s ! i" "sim_groupings (by_gen_data (objects s ! i))" "files s"]
  by (cases "loop_through_sims (objects s ! i) (files s)")
    (simp add: loop_through_sims_def run_rows_def append_rows_def)

text \<open>
  C22. Two runs of the driver commute (spec section 5: the order in which groups'
  rows are appended is not significant). Runs of objects with different output files
  give the same session in either order; in any case every file holds the same rows,
  as a multiset, whichever run goes first. Failing runs included.
\<close>

theorem runs_commute:
  assumes i: "i < length (objects s)" and j: "j < length (objects s)"
  shows "(output_file_csv (objects s ! i) \<noteq> output_file_csv (objects s ! j) \<longrightarrow>
           session_run s [Run i, Run j] = session_run s [Run j, Run i]) \<and>
         (\<forall>p. mset (file_rows (files (session_run s [Run i, Run j])) p) =
              mset (file_rows (files (session_run s [Run j, Run i])) p))"
  using i j
  by (simp del: session_step.simps add: session_step_Run append_rows_commute file_rows_append_rows)

end
