(* ===== verification/Packaging.thy ===== *)
theory Packaging
  imports Prelude
begin

text \<open>
  The packaging script \<open>src/setup.py\<close>. It reads \<open>README.md\<close> from the working
  directory (lines 7--8) and calls \<open>setuptools.setup\<close> with the package metadata
  (lines 10--34); the package list is \<open>find_packages(where="src")\<close> (line 32).
  The directory tree is a list of nodes, a file with its name and contents or a
  directory with its name and entries, in the order \<open>os.listdir\<close> gives them.
  \<open>find_packages\<close> is setuptools' \<open>PackageFinder._find_iter\<close>: an
  \<open>os.walk\<close> of \<open>where\<close> that reports, at each level, every directory whose name
  has no dot and that holds a file \<open>__init__.py\<close>, then descends into those
  directories only; the names \<open>ez_setup\<close> and \<open>*__pycache__\<close> are always
  excluded from the result (their subdirectories are still searched).
\<close>

datatype fs_node = FileNode string string | DirNode string "fs_node list"

definition looks_like_package :: "fs_node list \<Rightarrow> bool" where
  "looks_like_package entries =
     list_ex (\<lambda>n. case n of FileNode name _ \<Rightarrow> name = ''__init__.py'' | DirNode _ _ \<Rightarrow> False) entries"

definition package_dir_ok :: "string \<Rightarrow> fs_node list \<Rightarrow> bool" where
  "package_dir_ok d entries \<longleftrightarrow> CHR ''.'' \<notin> set d \<and> looks_like_package entries"

fun join_dots :: "string list \<Rightarrow> string" where
  "join_dots [] = []"
| "join_dots [x] = x"
| "join_dots (x # xs) = x @ ''.'' @ join_dots xs"

definition ends_with :: "string \<Rightarrow> string \<Rightarrow> bool" where
  "ends_with s suf \<longleftrightarrow> length suf \<le> length s \<and> drop (length s - length suf) s = suf"

definition always_excluded :: "string \<Rightarrow> bool" where
  "always_excluded package \<longleftrightarrow> package = ''ez_setup'' \<or> ends_with package ''__pycache__''"

fun level_packages :: "fs_node list \<Rightarrow> string list" where
  "level_packages [] = []"
| "level_packages (FileNode _ _ # ns) = level_packages ns"
| "level_packages (DirNode d cs # ns) =
     (if package_dir_ok d cs then d # level_packages ns else level_packages ns)"

fun find_iter :: "string list \<Rightarrow> fs_node list \<Rightarrow> string list"
  and find_below :: "string list \<Rightarrow> fs_node list \<Rightarrow> string list" where
  "find_iter pre ns =
     filter (\<lambda>p. \<not> always_excluded p) (map (\<lambda>d. join_dots (pre @ [d])) (level_packages ns))
     @ find_below pre ns"
| "find_below pre [] = []"
| "find_below pre (FileNode _ _ # ns) = find_below pre ns"
| "find_below pre (DirNode d cs # ns) =
     (if package_dir_ok d cs then find_iter (pre @ [d]) cs else []) @ find_below pre ns"

text \<open>\<open>open(name)\<close> in a directory: the contents of the file of that name.\<close>

fun read_file :: "fs_node list \<Rightarrow> string \<Rightarrow> string result" where
  "read_file [] name = Inl FileNotFoundError"
| "read_file (FileNode n c # ns) name = (if n = name then Inr c else read_file ns name)"
| "read_file (DirNode n cs # ns) name = (if n = name then Inl IsADirectoryError else read_file ns name)"

text \<open>The entries of a subdirectory; \<open>os.walk\<close> of anything else yields nothing.\<close>

fun lookup_dir :: "fs_node list \<Rightarrow> string \<Rightarrow> fs_node list option" where
  "lookup_dir [] name = None"
| "lookup_dir (FileNode n c # ns) name = (if n = name then None else lookup_dir ns name)"
| "lookup_dir (DirNode n cs # ns) name = (if n = name then Some cs else lookup_dir ns name)"

definition find_packages :: "fs_node list \<Rightarrow> string \<Rightarrow> string list" where
  "find_packages cwd where_dir =
     (case lookup_dir cwd where_dir of None \<Rightarrow> [] | Some ns \<Rightarrow> find_iter [] ns)"

record setup_args =
  pkg_name :: string
  pkg_version :: string
  pkg_url :: string
  pkg_author :: string
  pkg_author_email :: string
  pkg_license :: string
  pkg_classifiers :: "string list"
  pkg_package_dir :: "(string \<times> string) list"
  pkg_description :: string
  pkg_long_description :: string
  pkg_long_description_content_type :: string
  pkg_packages :: "string list"
  pkg_python_requires :: string

definition setup_py :: "fs_node list \<Rightarrow> setup_args result" where
  "setup_py cwd =
     bind_r (read_file cwd ''README.md'') (\<lambda>long_description.
       Inr \<lparr>pkg_name = ''oscillator_classification'', pkg_version = ''0.0.1'',
            pkg_url = ''https://github.com/michaelremington2/oscillator_classification'',
            pkg_author = ''Michael Remington'', pkg_author_email = ''michaelremington2@gmail.com'',
            pkg_license = ''LICENSE.txt'',
            pkg_classifiers = [''Intended Audience :: Science/Research'',
              ''License :: OSI Approved :: BSD License'', ''Natural Language :: English'',
              ''Operating System :: OS Independent'', ''Programming Language :: Python :: 3''],
            pkg_package_dir = [([], ''src'')],
            pkg_description =
              ''Algorithm of identifying optima points on a deterministic or stochastic time series graphs.'',
            pkg_long_description = long_description,
            pkg_long_description_content_type = ''text/markdown'',
            pkg_packages = find_packages cwd ''src'',
            pkg_python_requires = ''>=3.6''\<rparr>)"

section \<open>What a package is\<close>

text \<open>
  The abstract specification: a dotted name is a package when it is a path of
  directories below \<open>where\<close>, each of them named without a dot and holding a file
  \<open>__init__.py\<close>.
\<close>

fun pkg_path :: "fs_node list \<Rightarrow> string list \<Rightarrow> bool" where
  "pkg_path [] path = False"
| "pkg_path (FileNode n c # ns) path = pkg_path ns path"
| "pkg_path (DirNode d cs # ns) [] = False"
| "pkg_path (DirNode d cs # ns) (d' # rest) =
     ((d' = d \<and> package_dir_ok d cs \<and> (rest = [] \<or> pkg_path cs rest)) \<or> pkg_path ns (d' # rest))"

section \<open>Properties\<close>

lemma set_level_packages: "d \<in> set (level_packages ns) \<longleftrightarrow> pkg_path ns [d]"
  by (induction ns rule: level_packages.induct) auto

lemma pkg_path_Nil [simp]: "\<not> pkg_path ns []"
proof (induction ns)
  case Nil
  then show ?case by simp
next
  case (Cons n ns)
  then show ?case by (cases n) simp_all
qed

lemma pkg_path_nonempty: "pkg_path ns path \<Longrightarrow> path \<noteq> []"
  by auto

lemma find_iter_below_set:
  "x \<in> set (find_iter pre ns) \<longleftrightarrow>
     (\<exists>path. pkg_path ns path \<and> x = join_dots (pre @ path) \<and> \<not> always_excluded x)"
  "x \<in> set (find_below pre ns) \<longleftrightarrow>
     (\<exists>d rest. rest \<noteq> [] \<and> pkg_path ns (d # rest) \<and> x = join_dots (pre @ d # rest) \<and> \<not> always_excluded x)"
proof (induction pre ns and pre ns arbitrary: x and x rule: find_iter_find_below.induct)
  case (1 pre ns)
  show ?case
  proof
    assume "x \<in> set (find_iter pre ns)"
    then show "\<exists>path. pkg_path ns path \<and> x = join_dots (pre @ path) \<and> \<not> always_excluded x"
      using "1.IH" [of x] by (auto simp: set_level_packages)
  next
    assume "\<exists>path. pkg_path ns path \<and> x = join_dots (pre @ path) \<and> \<not> always_excluded x"
    then obtain path where p: "pkg_path ns path" "x = join_dots (pre @ path)" "\<not> always_excluded x"
      by blast
    then obtain d rest where path: "path = d # rest" by (cases path) auto
    show "x \<in> set (find_iter pre ns)"
    proof (cases "rest = []")
      case True
      then show ?thesis using p path by (auto simp: set_level_packages)
    next
      case False
      then show ?thesis using p path "1.IH" [of x] by auto
    qed
  qed
next
  case (2 pre)
  then show ?case by simp
next
  case (3 pre n c ns)
  then show ?case by simp
next
  case (4 pre d cs ns)
  show ?case
  proof (cases "package_dir_ok d cs")
    case True
    then show ?thesis using "4.IH"(1) [OF True, of x] "4.IH"(2) [of x] pkg_path_nonempty [of cs]
      by auto
  next
    case False
    then show ?thesis using "4.IH"(2) [of x] by auto
  qed
qed

end
