(* ===== verification/Spec2Isabelle.thy ===== *)
theory Spec2Isabelle
  imports Session Packaging
begin

text \<open>
  Verification model of oscillator_classification, which classifies the long-run
  behaviour of strategy time series from agent-based simulations.

  \<^bold>\<open>The program.\<close> \<open>src/oscillator_classification/multi_sim_analysis.py\<close>
  defines the class \<open>Experiment_Per_Cycle_Analysis\<close>. Its constructor takes the
  per-cycle table and the parameter table. It keeps the rows at generation
  boundaries (\<open>by_gen_filter\<close>, \<open>per_gen_data_format\<close>) and writes the CSV header
  when the output file is missing (\<open>create_csv\<close>, \<open>append_data\<close>).
  \<open>loop_through_sims\<close> groups the kept rows by (sim_id, org) and runs
  \<open>run_classifacation_algorithm\<close> on each group, appending one summary row per group.
  That method calls the module \<open>single_sim_analysis\<close> (imported as \<open>ipc\<close>). That
  module is not under \<open>src/\<close>, so its functions are modelled from the spec
  (sections 4.1--4.4). They are the derivative estimator \<open>aprox_derv_central\<close>, the
  Savitzky--Golay smoother \<open>savitzky_golay\<close>, the classifier
  \<open>inflection_point_classifaction\<close>, and the regime columns
  \<open>min_max_flip_by_gen\<close>, \<open>time_as_min_max\<close> and \<open>min_max_filter\<close>. The
  method then computes the statistics with pandas/numpy and the verdict with
  \<open>nash\<close>. \<open>src/setup.py\<close> packages the code with setuptools.

  \<^bold>\<open>The theories.\<close>
  \<^item> \<open>Prelude\<close>: errors as a sum (\<open>py_error + 'a\<close>), NaN as \<open>None\<close> of a
    \<open>real option\<close>, the pandas/numpy aggregations with their degrees of freedom
    (\<open>Series.var\<close> has ddof 1, \<open>ndarray.var\<close> ddof 0, both NaN when too short),
    \<open>np.diff\<close>, \<open>Series.max\<close>, and the records of the input rows, the summary row and the
    analysis object.
  \<^item> \<open>Derivative\<close>: \<open>aprox_derv_central\<close> with the one-sided fallback at the ends.
    It is exact on affine series, exact on quadratics in the interior, and twice
    applied it gives the constant second derivative there (the spec's round trip).
    It commutes with scaling and ignores offsets.
  \<^item> \<open>Smoother\<close>: \<open>savitzky_golay\<close> as a real least-squares fit. The monomials are
    orthogonalised over the window, and the weights are the fits of the unit vectors.
    The ends are padded by mirror reflection. The theory proves that order 0 or 1
    without derivative is the moving average, that a constant series is left
    unchanged, and that the smoother is linear.
  \<^item> \<open>Classifier\<close>: \<open>inflection_point_classifaction\<close> on the data frame rows. It
    characterises maxima and minima, shows the ends are never extrema, shows that
    the curvature of a classified point exceeds the sensitivity, that no two adjacent
    points carry the same label, and that negated slopes swap minima and maxima.
  \<^item> \<open>Regime\<close>: the three column scans and the spec's state machine
    (\<open>Unset\<close>, \<open>LastWasMin\<close>, \<open>LastWasMax\<close>), which are proved equal. The flip
    column refines the abstract \<open>flip_spec\<close>. The flip labels are
    \<open>remdups_adj\<close> of the extremum stream, so they alternate. The counted flips are
    the flips minus the first, and each has duration 1.
  \<^item> \<open>Summary\<close>: \<open>nash\<close> and \<open>run_classifacation_algorithm\<close>, split into
    \<open>classify_run\<close> (lines 70--81) and \<open>summarize_frame\<close> (lines 84--108). The
    theorems cover failure (C2), the flip count (C1), the flip-time and magnitude
    statistics (C3, C4, C19), the verdict (C6), series without extrema (C7, C8), every
    series alternating between two values (C5), invariance under shifting and
    reflecting the series (C16), independence from generation numbers (C18), and the
    quadratic round trip through the code's own pipeline (C20).
  \<^item> \<open>Orchestrator\<close>: the constructor, the boundary filter (C9, C15), the
    grouping (C10), and the driver loop over an explicit file system (path to CSV
    rows). The loop is proved to refine the abstract \<open>run_all\<close> (successful prefix
    plus first error, C11). Further theorems cover the header (C14), duplicated rows
    on re-run (C13), and abort on a short group (C12).
  \<^item> \<open>Session\<close>: a caller constructing objects and running their drivers in any
    order, as a step function over sessions and an inductive reachability predicate.
    By rule induction every output file holds one header followed by data rows (C21);
    two runs commute up to the order of rows in a shared file (C22).
  \<^item> \<open>Packaging\<close>: \<open>setup.py\<close>: the README read and the \<open>setup()\<close> arguments.
    The \<open>find_packages\<close> walk that line 32 calls belongs to setuptools; it is
    modelled as library behaviour so that \<open>setup_py\<close> is executable, and the
    theory proves the walk returns the directories the characterisation
    \<open>pkg_path\<close> names. No claim is made about it.
  \<^item> This theory: the fixtures, the spec's concrete scenarios evaluated in the kernel
    (used only as inputs of witnesses), construction and driver together (C17), and a
    witness for every theorem with a hypothesis.

  \<^bold>\<open>Modelling choices.\<close> Floats are exact reals. Where rounding would matter the
  code's tests are sign tests on exact differences. NaN is \<open>None\<close>, and a comparison
  with NaN is false. \<open>sqrt\<close> (for the standard deviations) is the real square root;
  it is not executable, but the simplifier evaluates it on exact squares. Frequencies
  are the numpy integers of \<open>max()\<close>: a remainder by 0 is 0, and an empty parameter
  table gives NaN, so no boundary. Both step sizes of the derivative are positive (a
  zero step raises \<open>ZeroDivisionError\<close>). A directory tree is a list of named files
  and directories in \<open>os.listdir\<close> order. No loop needs fuel: every scan and walk is
  structural recursion over a list or a finite tree, so every function is total and
  the theorems that a run returns are stated as such.

  \<^bold>\<open>Findings.\<close> The mean magnitude is taken over successive extremum rows
  whatever their labels, so two maxima of different height give zero flips and a
  nonzero magnitude, where the spec asks for zero (C19); on the spec's scenario it
  is 2, not about 1. A series alternating every step has at most one extremum, so no
  flip is counted, and the magnitude is NaN when the swing passes the curvature
  threshold (C4, C5). The flip-time statistics are
  constant (C3). A short group aborts the whole run instead of being skipped (C12).
  A zero frequency keeps every row (C15). The code differentiates the unsmoothed
  first derivative a second time (line 76), where the spec says it smooths before
  each pass. \<open>find_packages(where='src')\<close> finds no package, since no directory of
  \<open>src/\<close> holds \<open>__init__.py\<close>, and the module's \<open>__main__\<close> block calls an
  undefined \<open>main()\<close>.

  \<^bold>\<open>Not modelled.\<close> Reading the CSV inputs (\<open>pd.read_csv\<close>) and the text encoding
  of \<open>csv.writer\<close> (library I/O: the model starts from parsed rows and records written
  rows as values), the unused \<open>dot_class\<close> column, the \<open>__main__\<close> block (it only
  raises \<open>NameError\<close>), and what setuptools builds from the \<open>setup()\<close> arguments.
  The output file system of \<open>Orchestrator\<close> maps paths to files only: a directory
  at the output path, for which \<open>os.path.isfile\<close> is false and \<open>create_csv\<close>'s
  \<open>open(fp, "w")\<close> raises \<open>IsADirectoryError\<close>, is outside the model (the
  error constructor is used by \<open>Packaging\<close>'s README read).

  \<^bold>\<open>Open points.\<close> Polynomial reproduction of the smoother for every
  order. Exact regime durations (index minus last flip). The cell types of the
  written row (the no-extremum branch writes the integer 0, the others floats).
\<close>

section \<open>Fixtures\<close>

text \<open>A series of observations as the rows of one group: generations and cycles
  \<open>1, 2, \<dots>\<close>, simulation 1, organism \<open>krat\<close>, experiment 1.\<close>

definition series_rows :: "real list \<Rightarrow> cycle_row list" where
  "series_rows ys = map (\<lambda>(g, v). \<lparr>cycle = g, sim_id = 1, org = ''krat'', experiment_col = 1,
      generation = g, bush_pw_mean = v\<rparr>) (zip [1..int (length ys)] ys)"

text \<open>An analysis object with the constructor's default sensitivities (5 and 0.05).\<close>

definition example_analysis :: "cycle_row list \<Rightarrow> per_cycle_analysis" where
  "example_analysis rows =
     \<lparr>exp_name = ''exp'', per_cycle = rows, parameters = [], output_file_csv = ''out.csv'',
      nash_inf_count_sensitivity = 5, nash_inf_mag_sensitivity = 5 / 100,
      krat_reproduction_freq = None, snake_reproduction_freq = None,
      by_gen_filter_col = [], by_gen_data = rows\<rparr>"

section \<open>The scenario of spec section 8\<close>

lemma scen_d1: "aprox_derv_central [0, 1, 2, 1, 0, 1, 2, 1, 0] 1 1 = Inr [1, 1, 0, -1, 0, 1, 0, -1, -1]"
  by (simp add: aprox_derv_central_def upt_rec derv_at_def)

lemma scen_d2: "aprox_derv_central [1, 1, 0, -1, 0, 1, 0, -1, -1] 1 1 = Inr [0, -1/2, -1, 0, 1, 0, -1, -1/2, 0]"
  by (simp add: aprox_derv_central_def upt_rec derv_at_def)

lemma scen_s1: "savitzky_golay [1, 1, 0, -1, 0, 1, 0, -1, -1] 3 1 0 1 = Inr [1, 2/3, 0, -1/3, 0, 1/3, 0, -2/3, -1]"
  by (simp add: savitzky_golay_def sg_coeffs_3_1 mirror_pad_def upt_rec)

lemma scen_s2: "savitzky_golay [0, -1/2, -1, 0, 1, 0, -1, -1/2, 0] 3 1 0 1 = Inr [-1/3, -1/2, -1/2, 0, 1/3, 0, -1/2, -1/2, -1/3]"
  by (simp add: savitzky_golay_def sg_coeffs_3_1 mirror_pad_def upt_rec)

lemma scen_ys: "map bush_pw_mean (series_rows [0, 1, 2, 1, 0, 1, 2, 1, 0]) = [0, 1, 2, 1, 0, 1, 2, 1, 0]"
  by (simp add: series_rows_def upto.simps)

lemma scen_gens: "map generation (series_rows [0, 1, 2, 1, 0, 1, 2, 1, 0]) = [1, 2, 3, 4, 5, 6, 7, 8, 9]"
  by (simp add: series_rows_def upto.simps)

lemma scen_classify:
  "classify_run (series_rows [0, 1, 2, 1, 0, 1, 2, 1, 0]) =
   Inr (build_frame [1, 2, 3, 4, 5, 6, 7, 8, 9] [0, 1, 2, 1, 0, 1, 2, 1, 0]
          [1, 2/3, 0, -1/3, 0, 1/3, 0, -2/3, -1] [-1/3, -1/2, -1/2, 0, 1/3, 0, -1/2, -1/2, -1/3],
        [PNone, PNone, PMax, PNone, PMin, PNone, PMax, PNone, PNone])"
  unfolding classify_run_def Let_def scen_ys scen_gens scen_d1 bind_r_simps scen_s1 scen_d2 scen_s2
  by (simp add: build_frame_def inflection_point_classifaction_def classify_at_def upt_rec)

lemma scenario_run_eq:
  "run_classifacation_algorithm self (series_rows [0, 1, 2, 1, 0, 1, 2, 1, 0]) =
   Inr \<lparr>s_exp_name = exp_name self, s_sim_id = Some 1, s_exp = Some 1, s_org = Some ''krat'',
        count_str_flip = 2,
        mean_strategy_flip_time = Some 1, std_strategy_flip_time = Some 0,
        var_strategy_flip_time = Some 0,
        mean_magnitude_of_strategy_flip = Some 2, std_magnitude_of_strategy_flip = Some 0,
        var_magnitude_of_strategy_flip = Some 0,
        nash_val = (if 2 \<le> nash_inf_count_sensitivity self \<and> 2 \<le> nash_inf_mag_sensitivity self
                    then 1 else 0)\<rparr>"
  unfolding run_classifacation_algorithm_def scen_classify bind_r_simps
  by (simp add: summarize_frame_def build_frame_def min_max_flip_by_gen_def time_as_min_max_def
      min_max_filter_def flip_time_stats_def magnitude_stats_def extremum_values_def nash_def stats_defs
      series_rows_def upto.simps)

section \<open>A series alternating every step\<close>

lemma alt_ys: "map bush_pw_mean (series_rows [0, 1, 0, 1, 0, 1, 0, 1]) = [0, 1, 0, 1, 0, 1, 0, 1]"
  by (simp add: series_rows_def upto.simps)

lemma alt_gens: "map generation (series_rows [0, 1, 0, 1, 0, 1, 0, 1]) = [1, 2, 3, 4, 5, 6, 7, 8]"
  by (simp add: series_rows_def upto.simps)

lemma alt_d1: "aprox_derv_central [0, 1, 0, 1, 0, 1, 0, 1] 1 1 = Inr [1, 0, 0, 0, 0, 0, 0, 1]"
  by (simp add: aprox_derv_central_def upt_rec derv_at_def)

lemma alt_d2: "aprox_derv_central [1, 0, 0, 0, 0, 0, 0, 1] 1 1 = Inr [-1, -1/2, 0, 0, 0, 0, 1/2, 1]"
  by (simp add: aprox_derv_central_def upt_rec derv_at_def)

lemma alt_s1: "savitzky_golay [1, 0, 0, 0, 0, 0, 0, 1] 3 1 0 1 = Inr [1/3, 1/3, 0, 0, 0, 0, 1/3, 1/3]"
  by (simp add: savitzky_golay_def sg_coeffs_3_1 mirror_pad_def upt_rec)

lemma alt_s2: "savitzky_golay [-1, -1/2, 0, 0, 0, 0, 1/2, 1] 3 1 0 1 = Inr [-2/3, -1/2, -1/6, 0, 0, 1/6, 1/2, 2/3]"
  by (simp add: savitzky_golay_def sg_coeffs_3_1 mirror_pad_def upt_rec)

lemma alt_classify:
  "classify_run (series_rows [0, 1, 0, 1, 0, 1, 0, 1]) =
   Inr (build_frame [1, 2, 3, 4, 5, 6, 7, 8] [0, 1, 0, 1, 0, 1, 0, 1]
          [1/3, 1/3, 0, 0, 0, 0, 1/3, 1/3] [-2/3, -1/2, -1/6, 0, 0, 1/6, 1/2, 2/3],
        [PNone, PNone, PMax, PNone, PNone, PNone, PNone, PNone])"
  unfolding classify_run_def Let_def alt_ys alt_gens alt_d1 bind_r_simps alt_s1 alt_d2 alt_s2
  by (simp add: build_frame_def inflection_point_classifaction_def classify_at_def upt_rec)

lemma alternating_run_eq:
  "run_classifacation_algorithm self (series_rows [0, 1, 0, 1, 0, 1, 0, 1]) =
   Inr \<lparr>s_exp_name = exp_name self, s_sim_id = Some 1, s_exp = Some 1, s_org = Some ''krat'',
        count_str_flip = 0,
        mean_strategy_flip_time = None, std_strategy_flip_time = None, var_strategy_flip_time = None,
        mean_magnitude_of_strategy_flip = None, std_magnitude_of_strategy_flip = None,
        var_magnitude_of_strategy_flip = None, nash_val = 0\<rparr>"
  unfolding run_classifacation_algorithm_def alt_classify bind_r_simps
  by (simp add: summarize_frame_def build_frame_def min_max_flip_by_gen_def time_as_min_max_def
      min_max_filter_def flip_time_stats_def magnitude_stats_def extremum_values_def nash_def stats_defs
      series_rows_def upto.simps)

section \<open>Two maxima without a minimum\<close>

lemma twin_ys: "map bush_pw_mean (series_rows [0, 3, 0, 0, 3, 1]) = [0, 3, 0, 0, 3, 1]"
  by (simp add: series_rows_def upto.simps)

lemma twin_gens: "map generation (series_rows [0, 3, 0, 0, 3, 1]) = [1, 2, 3, 4, 5, 6]"
  by (simp add: series_rows_def upto.simps)

lemma twin_d1: "aprox_derv_central [0, 3, 0, 0, 3, 1] 1 1 = Inr [3, 0, -3/2, 3/2, 1/2, -2]"
  by (simp add: aprox_derv_central_def upt_rec derv_at_def)

lemma twin_d2: "aprox_derv_central [3, 0, -3/2, 3/2, 1/2, -2] 1 1 = Inr [-3, -9/4, 3/4, 1, -7/4, -5/2]"
  by (simp add: aprox_derv_central_def upt_rec derv_at_def)

lemma twin_s1: "savitzky_golay [3, 0, -3/2, 3/2, 1/2, -2] 3 1 0 1 = Inr [1, 1/2, 0, 1/6, 0, -1/3]"
  by (simp add: savitzky_golay_def sg_coeffs_3_1 mirror_pad_def upt_rec)

lemma twin_s2: "savitzky_golay [-3, -9/4, 3/4, 1, -7/4, -5/2] 3 1 0 1 = Inr [-5/2, -3/2, -1/6, 0, -13/12, -2]"
  by (simp add: savitzky_golay_def sg_coeffs_3_1 mirror_pad_def upt_rec)

lemma twin_classify:
  "classify_run (series_rows [0, 3, 0, 0, 3, 1]) =
   Inr (build_frame [1, 2, 3, 4, 5, 6] [0, 3, 0, 0, 3, 1]
          [1, 1/2, 0, 1/6, 0, -1/3] [-5/2, -3/2, -1/6, 0, -13/12, -2],
        [PNone, PNone, PMax, PNone, PMax, PNone])"
  unfolding classify_run_def Let_def twin_ys twin_gens twin_d1 bind_r_simps twin_s1 twin_d2 twin_s2
  by (simp add: build_frame_def inflection_point_classifaction_def classify_at_def upt_rec)

lemma twin_run_eq:
  "run_classifacation_algorithm self (series_rows [0, 3, 0, 0, 3, 1]) =
   Inr \<lparr>s_exp_name = exp_name self, s_sim_id = Some 1, s_exp = Some 1, s_org = Some ''krat'',
        count_str_flip = 0,
        mean_strategy_flip_time = None, std_strategy_flip_time = None, var_strategy_flip_time = None,
        mean_magnitude_of_strategy_flip = Some 3, std_magnitude_of_strategy_flip = Some 0,
        var_magnitude_of_strategy_flip = Some 0,
        nash_val = (if 0 \<le> nash_inf_count_sensitivity self \<and> 3 \<le> nash_inf_mag_sensitivity self
                    then 1 else 0)\<rparr>"
  unfolding run_classifacation_algorithm_def twin_classify bind_r_simps
  by (simp add: summarize_frame_def build_frame_def min_max_flip_by_gen_def time_as_min_max_def
      min_max_filter_def flip_time_stats_def magnitude_stats_def extremum_values_def nash_def stats_defs
      series_rows_def upto.simps)


section \<open>Construction and driver together\<close>

text \<open>
  C17. End to end: when the constructor creates the output file and every group of
  boundary rows has at least 3 rows, the driver succeeds and the file holds the
  header followed by exactly one summary row per (sim_id, org) group, in group order,
  each the result of the per-series algorithm on that group.
\<close>

theorem pipeline_output:
  assumes init: "experiment_init name pc ps out cs ms fs = (self, fs1)" and new: "fs out = None"
    and long: "\<forall>g\<in>set (sim_groupings (by_gen_data self)). 3 \<le> length (snd g)"
    and run: "loop_through_sims self fs1 = (res, fs2)"
  shows "res = Inr () \<and>
    (\<exists>rows. file_rows fs2 out = HeaderLine csv_header # map DataLine rows \<and>
       list_all2 (\<lambda>g r. run_classifacation_algorithm self (snd g) = Inr r)
         (sim_groupings (by_gen_data self)) rows)"
proof -
  have o: "output_file_csv self = out" and h: "file_rows fs1 out = [HeaderLine csv_header]"
    using experiment_init_output [OF init] new by auto
  have "loop_groups self (sim_groupings (by_gen_data self)) fs1 = (res, fs2)"
    using run by (simp add: loop_through_sims_def)
  from loop_groups_run_all [OF this] run_all_success [OF long] o h show ?thesis
    by auto
qed

section \<open>Witnesses\<close>

text \<open>Each theorem with a hypothesis, applied where its hypotheses hold.\<close>

lemma run_count_str_flip_witness:
  "\<exists>r. run_classifacation_algorithm (example_analysis []) (series_rows [0, 1, 2, 1, 0, 1, 2, 1, 0]) = Inr r \<and>
     (\<exists>df cls. classify_run (series_rows [0, 1, 2, 1, 0, 1, 2, 1, 0]) = Inr (df, cls) \<and>
        count_str_flip r = length (remdups_adj (filter (\<lambda>c. c \<noteq> PNone) cls)) - 1)"
  using run_count_str_flip [OF scenario_run_eq] scenario_run_eq by blast

lemma run_flip_time_degenerate_witness:
  "\<exists>r. run_classifacation_algorithm (example_analysis []) (series_rows [0, 1, 2, 1, 0, 1, 2, 1, 0]) = Inr r \<and>
     mean_strategy_flip_time r = (if count_str_flip r = 0 then None else Some 1) \<and>
     std_strategy_flip_time r = (if count_str_flip r \<le> 1 then None else Some 0) \<and>
     var_strategy_flip_time r = (if count_str_flip r \<le> 1 then None else Some 0)"
  using run_flip_time_degenerate [OF scenario_run_eq] scenario_run_eq by blast

lemma run_magnitude_nan_witness:
  "\<exists>r. run_classifacation_algorithm (example_analysis []) (series_rows [0, 1, 0, 1, 0, 1, 0, 1]) = Inr r \<and>
     (\<exists>df cls. classify_run (series_rows [0, 1, 0, 1, 0, 1, 0, 1]) = Inr (df, cls) \<and>
       (mean_magnitude_of_strategy_flip r = None \<longleftrightarrow>
        length (extremum_values cls (map bush_pw_mean (series_rows [0, 1, 0, 1, 0, 1, 0, 1]))) = 1))"
  using run_magnitude_nan [OF alternating_run_eq] alternating_run_eq by blast

lemma run_nash_verdict_witness:
  "\<exists>r. run_classifacation_algorithm (example_analysis []) (series_rows [0, 1, 2, 1, 0, 1, 2, 1, 0]) = Inr r \<and>
     nash_val r =
       (if int (count_str_flip r) \<le> nash_inf_count_sensitivity (example_analysis []) \<and>
           (\<exists>m. mean_magnitude_of_strategy_flip r = Some m \<and> m \<le> nash_inf_mag_sensitivity (example_analysis []))
        then 1 else 0)"
  using run_nash_verdict [OF scenario_run_eq] scenario_run_eq by blast

lemma run_strictly_monotone_stable_witness:
  "sorted_wrt (<) (map bush_pw_mean (series_rows [1, 2, 4])) \<and> 3 \<le> length (series_rows [1, 2, 4]) \<and>
   (\<exists>r. run_classifacation_algorithm (example_analysis []) (series_rows [1, 2, 4]) = Inr r \<and>
      count_str_flip r = 0 \<and> mean_magnitude_of_strategy_flip r = Some 0 \<and>
      std_magnitude_of_strategy_flip r = Some 0 \<and> var_magnitude_of_strategy_flip r = Some 0 \<and>
      nash_val r = 1)"
proof -
  have s: "sorted_wrt (<) (map bush_pw_mean (series_rows [1, 2, 4]))"
    by (simp add: series_rows_def upto.simps)
  have l: "3 \<le> length (series_rows [1, 2, 4])"
    by (simp add: series_rows_def)
  show ?thesis
    using run_strictly_monotone_stable [OF disjI1 [OF s] l, of "example_analysis []"] s l
    by (simp add: example_analysis_def)
qed

lemma run_constant_stable_witness:
  "map bush_pw_mean (series_rows [7, 7, 7]) = [7, 7, 7] \<and> 3 \<le> length (series_rows [7, 7, 7]) \<and>
   (\<exists>r. run_classifacation_algorithm (example_analysis []) (series_rows [7, 7, 7]) = Inr r \<and>
      count_str_flip r = 0 \<and> mean_magnitude_of_strategy_flip r = Some 0 \<and>
      std_magnitude_of_strategy_flip r = Some 0 \<and> var_magnitude_of_strategy_flip r = Some 0 \<and>
      nash_val r = 1)"
proof -
  have c: "\<forall>row\<in>set (series_rows [7, 7, 7]). bush_pw_mean row = 7"
    by (simp add: series_rows_def upto.simps)
  have l: "3 \<le> length (series_rows [7, 7, 7])"
    by (simp add: series_rows_def)
  show ?thesis
    using run_constant_stable [OF c l, of "example_analysis []"] l
    by (simp add: example_analysis_def series_rows_def upto.simps)
qed

lemma run_affine_invariant_witness:
  "run_classifacation_algorithm (example_analysis [])
     (map (\<lambda>r. r\<lparr>bush_pw_mean := -1 * bush_pw_mean r + 2\<rparr>) (series_rows [0, 1, 2, 1, 0, 1, 2, 1, 0])) =
   run_classifacation_algorithm (example_analysis []) (series_rows [0, 1, 2, 1, 0, 1, 2, 1, 0])"
  using run_affine_invariant [where a = "-1" and c = 2 and self = "example_analysis []"
      and sim = "series_rows [0, 1, 2, 1, 0, 1, 2, 1, 0]"]
  by simp

lemma pipeline_output_witness:
  "\<exists>self fs1 res fs2.
     experiment_init ''exp'' (series_rows [0, 1, 2, 1, 0, 1, 2, 1, 0])
       [\<lparr>krat_reproduction_freq_per_x_cycles = 1, snake_reproduction_freq_per_x_cycles = 1\<rparr>]
       ''out.csv'' 5 (5 / 100) Map.empty = (self, fs1) \<and>
     loop_through_sims self fs1 = (res, fs2) \<and>
     res = Inr () \<and> length (file_rows fs2 ''out.csv'') = 2"
proof -
  obtain self fs1 where init: "experiment_init ''exp'' (series_rows [0, 1, 2, 1, 0, 1, 2, 1, 0])
       [\<lparr>krat_reproduction_freq_per_x_cycles = 1, snake_reproduction_freq_per_x_cycles = 1\<rparr>]
       ''out.csv'' 5 (5 / 100) Map.empty = (self, fs1)"
    by (meson surj_pair)
  have data: "by_gen_data self = series_rows [0, 1, 2, 1, 0, 1, 2, 1, 0]"
    using init by (auto simp: experiment_init_def per_gen_data_format_def by_gen_filter_def
        by_gen_row_def np_mod_def series_rows_def upto.simps Let_def)
  have g: "sim_groupings (series_rows [0, 1, 2, 1, 0, 1, 2, 1, 0]) =
      [((1, ''krat''), series_rows [0, 1, 2, 1, 0, 1, 2, 1, 0])]"
    by (simp add: sim_groupings_def group_keys_def series_rows_def upto.simps)
  obtain res fs2 where run: "loop_through_sims self fs1 = (res, fs2)"
    by (meson surj_pair)
  have long: "\<forall>g\<in>set (sim_groupings (by_gen_data self)). 3 \<le> length (snd g)"
    unfolding data g by (simp add: series_rows_def)
  show ?thesis
    using pipeline_output [OF init _ long run] init run data g
    by (auto dest: list_all2_lengthD)
qed

lemma run_observation_determined_witness:
  "run_classifacation_algorithm (example_analysis [])
     (map (\<lambda>r. r\<lparr>generation := 10 * generation r, cycle := 0\<rparr>) (series_rows [0, 1, 2, 1, 0, 1, 2, 1, 0])) =
   run_classifacation_algorithm (example_analysis []) (series_rows [0, 1, 2, 1, 0, 1, 2, 1, 0])"
  by (rule run_observation_determined) simp_all

lemma classify_run_quadratic_witness:
  "\<exists>df. classify_run (series_rows [0, 1, 4, 9, 16, 25, 36]) = Inr (df, inflection_point_classifaction df (1 / 100))
     \<and> col_yx_dx (df ! 3) = 6 \<and> col_yx_dx2 (df ! 3) = 2"
proof -
  have ys: "map bush_pw_mean (series_rows [0, 1, 4, 9, 16, 25, 36]) =
      map (\<lambda>i. 1 * (real i)\<^sup>2 + 0 * real i + 0) [0..<length (series_rows [0, 1, 4, 9, 16, 25, 36])]"
    by (simp add: series_rows_def upto.simps upt_rec power2_eq_square)
  have n: "3 \<le> length (series_rows [0, 1, 4, 9, 16, 25, 36])"
    by (simp add: series_rows_def)
  obtain df where c: "classify_run (series_rows [0, 1, 4, 9, 16, 25, 36]) = Inr (df, inflection_point_classifaction df (1 / 100))"
    and dx: "\<forall>i. 2 \<le> i \<and> i + 2 < length (series_rows [0, 1, 4, 9, 16, 25, 36]) \<longrightarrow> col_yx_dx (df ! i) = 2 * 1 * real i + 0"
    and dx2: "\<forall>i. 3 \<le> i \<and> i + 3 < length (series_rows [0, 1, 4, 9, 16, 25, 36]) \<longrightarrow> col_yx_dx2 (df ! i) = 2 * 1"
    using classify_run_quadratic [OF ys n] by blast
  have l: "length (series_rows [0, 1, 4, 9, 16, 25, 36]) = 7" by (simp add: series_rows_def)
  show ?thesis using c dx [rule_format, of 3] dx2 [rule_format, of 3] l by auto
qed

lemma session_output_well_formed_witness:
  "\<exists>rows. files (session_run session_init
      [Construct ''exp'' [] [] ''out.csv'' 5 (5 / 100), Run 0,
       Construct ''exp2'' [] [] ''out.csv'' 2 (1 / 10), Run 1, Run 0]) ''out.csv'' =
     Some (HeaderLine csv_header # map DataLine rows)"
proof -
  let ?s = "session_run session_init
      [Construct ''exp'' [] [] ''out.csv'' 5 (5 / 100), Run 0,
       Construct ''exp2'' [] [] ''out.csv'' 2 (1 / 10), Run 1, Run 0]"
  have "session_reach ?s" by (rule session_run_reach [OF session_reach.init])
  then have wf: "output_well_formed ?s" by (rule session_output_well_formed)
  have "\<exists>self\<in>set (objects ?s). output_file_csv self = ''out.csv''"
    by (simp add: session_init_def experiment_init_def per_gen_data_format_def Let_def)
  then obtain self where self: "self \<in> set (objects ?s)" and o: "output_file_csv self = ''out.csv''"
    by blast
  have "\<forall>self\<in>set (objects ?s). \<exists>rows. files ?s (output_file_csv self) =
      Some (HeaderLine csv_header # map DataLine rows)"
    using wf unfolding output_well_formed_def by (rule conjunct2)
  from bspec [OF this self] show ?thesis by (simp only: o)
qed

lemma runs_commute_witness:
  "\<forall>p. mset (file_rows (files (session_run (session_run session_init
       [Construct ''e1'' (series_rows [0, 1, 2, 1, 0, 1, 2, 1, 0]) [] ''out.csv'' 5 (5 / 100),
        Construct ''e2'' (series_rows [0, 3, 0, 0, 3, 1]) [] ''out.csv'' 5 (5 / 100)]) [Run 0, Run 1])) p) =
     mset (file_rows (files (session_run (session_run session_init
       [Construct ''e1'' (series_rows [0, 1, 2, 1, 0, 1, 2, 1, 0]) [] ''out.csv'' 5 (5 / 100),
        Construct ''e2'' (series_rows [0, 3, 0, 0, 3, 1]) [] ''out.csv'' 5 (5 / 100)]) [Run 1, Run 0])) p)"
proof -
  let ?s = "session_run session_init
       [Construct ''e1'' (series_rows [0, 1, 2, 1, 0, 1, 2, 1, 0]) [] ''out.csv'' 5 (5 / 100),
        Construct ''e2'' (series_rows [0, 3, 0, 0, 3, 1]) [] ''out.csv'' 5 (5 / 100)]"
  have "0 < length (objects ?s)" "1 < length (objects ?s)"
    by (simp_all add: session_init_def experiment_init_def Let_def)
  from runs_commute [OF this] show ?thesis by (rule conjunct2)
qed

lemma sim_groupings_partition_witness:
  "sim_groupings (series_rows [1, 2]) = [((1, ''krat''), series_rows [1, 2])] \<and>
   mset (concat (map snd (sim_groupings (series_rows [1, 2])))) = mset (series_rows [1, 2]) \<and>
   sorted (map fst (sim_groupings (series_rows [1, 2]))) \<and>
   distinct (map fst (sim_groupings (series_rows [1, 2]))) \<and>
   list_all (\<lambda>r. (sim_id r, org r) = (1, ''krat'')) (series_rows [1, 2])"
proof -
  have "sim_groupings (series_rows [1, 2]) = [((1, ''krat''), series_rows [1, 2])]"
    by (simp add: sim_groupings_def group_keys_def series_rows_def upto.simps)
  then show ?thesis using sim_groupings_partition [of "series_rows [1, 2]"]
    by (auto simp: list_all_iff)
qed

lemma loop_groups_refines_witness:
  "\<exists>res fs'. loop_groups (example_analysis []) [((1, ''krat''), series_rows [0, 1, 2, 1, 0, 1, 2, 1, 0])] Map.empty = (res, fs') \<and>
     res = (case snd (run_all (example_analysis []) [((1, ''krat''), series_rows [0, 1, 2, 1, 0, 1, 2, 1, 0])]) of
              None \<Rightarrow> Inr () | Some e \<Rightarrow> Inl e) \<and>
     file_rows fs' ''out.csv'' = map DataLine (fst (run_all (example_analysis []) [((1, ''krat''), series_rows [0, 1, 2, 1, 0, 1, 2, 1, 0])]))"
proof -
  obtain res fs' where eq: "loop_groups (example_analysis []) [((1, ''krat''), series_rows [0, 1, 2, 1, 0, 1, 2, 1, 0])] Map.empty = (res, fs')"
    by (meson surj_pair)
  show ?thesis
    using loop_groups_refines [OF eq] eq by (simp add: example_analysis_def file_rows_def)
qed

lemma loop_groups_abort_short_witness:
  "\<exists>res fs'. loop_groups (example_analysis []) [((1, ''krat''), series_rows [0, 1, 2, 1, 0, 1, 2, 1, 0]), ((2, ''krat''), series_rows [0, 1])] Map.empty
      = (res, fs') \<and> res = Inl InvalidWindowError \<and> length (file_rows fs' ''out.csv'') = 1"
proof -
  let ?gs = "[((1::int, ''krat''), series_rows [0, 1, 2, 1, 0, 1, 2, 1, 0]), ((2, ''krat''), series_rows [0, 1])]"
  obtain res fs' where eq: "loop_groups (example_analysis []) ?gs Map.empty = (res, fs')"
    by (meson surj_pair)
  have h: "1 < length ?gs" "length (snd (?gs ! 1)) < 3" "\<forall>j<1. 3 \<le> length (snd (?gs ! j))"
    by (simp_all add: series_rows_def)
  show ?thesis
    using loop_groups_abort_short [OF h eq] eq by (simp add: example_analysis_def file_rows_def)
qed

lemma loop_through_sims_duplicates_witness:
  "\<exists>fs1 res2 fs2. loop_through_sims (example_analysis (series_rows [0, 1, 2, 1, 0, 1, 2, 1, 0])) Map.empty = (Inr (), fs1) \<and>
     loop_through_sims (example_analysis (series_rows [0, 1, 2, 1, 0, 1, 2, 1, 0])) fs1 = (res2, fs2) \<and>
     res2 = Inr () \<and> length (file_rows fs2 ''out.csv'') = 2"
proof -
  let ?self = "example_analysis (series_rows [0, 1, 2, 1, 0, 1, 2, 1, 0])"
  have g: "sim_groupings (series_rows [0, 1, 2, 1, 0, 1, 2, 1, 0]) = [((1, ''krat''), series_rows [0, 1, 2, 1, 0, 1, 2, 1, 0])]"
    by (simp add: sim_groupings_def group_keys_def series_rows_def upto.simps)
  have first: "loop_through_sims ?self Map.empty =
      (Inr (), append_data Map.empty ''out.csv'' (DataLine (projr (run_classifacation_algorithm ?self (series_rows [0, 1, 2, 1, 0, 1, 2, 1, 0])))))"
    by (simp add: loop_through_sims_def g scenario_run_eq example_analysis_def)
  obtain res2 fs2 where second: "loop_through_sims ?self
      (append_data Map.empty ''out.csv'' (DataLine (projr (run_classifacation_algorithm ?self (series_rows [0, 1, 2, 1, 0, 1, 2, 1, 0]))))) = (res2, fs2)"
    by (meson surj_pair)
  show ?thesis
    using loop_through_sims_duplicates [OF first second] first second g
    by (simp add: example_analysis_def file_rows_def)
qed

lemma experiment_init_header_once_witness:
  "\<exists>self fs'. experiment_init ''exp'' [] [] ''out.csv'' 5 (5 / 100) Map.empty = (self, fs') \<and>
     fs' ''out.csv'' = Some [HeaderLine csv_header] \<and> fs' ''other.csv'' = None \<and>
     snd (experiment_init ''exp'' [] [] ''out.csv'' 5 (5 / 100) fs') = fs'"
proof -
  obtain self fs' where eq: "experiment_init ''exp'' [] [] ''out.csv'' 5 (5 / 100) Map.empty = (self, fs')"
    by (meson surj_pair)
  show ?thesis using experiment_init_header_once [OF eq] eq by auto
qed

lemma zero_frequency_all_boundaries_witness:
  "col_max (map krat_reproduction_freq_per_x_cycles
     (parameters ((example_analysis (series_rows [1, 2, 3]))
        \<lparr>parameters := [\<lparr>krat_reproduction_freq_per_x_cycles = 0, snake_reproduction_freq_per_x_cycles = 2\<rparr>]\<rparr>)))
     = Some 0 \<and>
   filter (\<lambda>r. org r = ''krat'') (by_gen_data (per_gen_data_format ((example_analysis (series_rows [1, 2, 3]))
        \<lparr>parameters := [\<lparr>krat_reproduction_freq_per_x_cycles = 0, snake_reproduction_freq_per_x_cycles = 2\<rparr>]\<rparr>)))
   = series_rows [1, 2, 3]"
proof -
  let ?self = "(example_analysis (series_rows [1, 2, 3]))
        \<lparr>parameters := [\<lparr>krat_reproduction_freq_per_x_cycles = 0, snake_reproduction_freq_per_x_cycles = 2\<rparr>]\<rparr>"
  have z: "col_max (map krat_reproduction_freq_per_x_cycles (parameters ?self)) = Some 0"
    by simp
  have k: "filter (\<lambda>r. org r = ''krat'') (per_cycle ?self) = series_rows [1, 2, 3]"
    by (simp add: example_analysis_def series_rows_def upto.simps)
  show ?thesis using zero_frequency_all_boundaries [OF z] z k by simp
qed

lemma run_alternating_series_witness:
  "\<exists>r. run_classifacation_algorithm (example_analysis []) (series_rows [0, 1, 0, 1, 0, 1, 0, 1]) = Inr r
     \<and> count_str_flip r = 0 \<and> mean_magnitude_of_strategy_flip r = None \<and> nash_val r = 0"
proof -
  let ?sr = "series_rows [0, 1, 0, 1, 0, 1, 0, 1]"
  have m: "map bush_pw_mean ?sr = map (\<lambda>i. if even i then (0::real) else 1) [0..<8]"
    by (simp add: series_rows_def upto.simps upt_rec)
  have l: "length ?sr = 8" by (simp add: series_rows_def upto.simps)
  have "\<forall>i<length ?sr. bush_pw_mean (?sr ! i) = (if even i then 0 else 1)"
  proof (intro allI impI)
    fix i assume i: "i < length ?sr"
    then have "bush_pw_mean (?sr ! i) = map bush_pw_mean ?sr ! i" by simp
    also have "\<dots> = (if even i then 0 else 1)" unfolding m using i l by simp
    finally show "bush_pw_mean (?sr ! i) = (if even i then 0 else 1)" .
  qed
  then show ?thesis
    using run_alternating_series [of "series_rows [0, 1, 0, 1, 0, 1, 0, 1]" 0 1 "example_analysis []"]
    by (simp add: series_rows_def upto.simps)
qed

lemma run_mean_magnitude_zero_witness:
  "\<exists>r. run_classifacation_algorithm (example_analysis []) (series_rows [0, 3, 0, 0, 3, 1]) = Inr r \<and>
     (\<exists>df cls. classify_run (series_rows [0, 3, 0, 0, 3, 1]) = Inr (df, cls) \<and>
       (mean_magnitude_of_strategy_flip r = Some 0 \<longleftrightarrow>
        length (extremum_values cls (map bush_pw_mean (series_rows [0, 3, 0, 0, 3, 1]))) \<noteq> 1 \<and>
        length (remdups (extremum_values cls (map bush_pw_mean (series_rows [0, 3, 0, 0, 3, 1])))) \<le> 1))"
  using run_mean_magnitude_zero [OF twin_run_eq] twin_run_eq by blast

end
